theory Spec2Isabelle
  imports Complex_Main "HOL-Library.Signed_Division"
begin

section \<open>The spatial binning index of package gm (Bins)\<close>

text \<open>
  The Go source keeps a uniform grid of bins over a 2-D or 3-D box. This theory embeds
  the type \<open>Bins\<close> and its methods \<open>Init\<close>, \<open>Append\<close>, \<open>Clear\<close>, \<open>Find\<close>,
  \<open>FindBinByIndex\<close>, \<open>CalcIdx\<close> and \<open>FindAlongSegment\<close>.

  Conventions of the embedding:
  \<^item> A \<open>float64\<close> is a real number. Every floating-point operation of the source is
    written \<open>rnd (exact result)\<close> for a rounding function \<open>rnd\<close> that is a parameter of
    each method; \<open>exact\<close> is arithmetic without rounding. Infinities and NaN (the results
    of overflow and of a division by zero) have no counterpart here: where a theorem
    depends on a quotient, it shows that the divisor is positive.
  \<^item> A Go \<open>int\<close> has 64 bits (as on every 64-bit platform): \<open>+\<close> and \<open>*\<close> give the exact
    result wrapped into two's complement (\<open>wrap64\<close>). The conversion \<open>int(f)\<close> truncates
    toward zero, and so do \<open>/\<close> and \<open>%\<close> on integers (\<open>sdiv\<close>, \<open>smod\<close>). Memory is
    unbounded: \<open>make\<close> fails on a negative length only.
  \<^item> A slice is a list, and a nil slice is the empty list. A \<open>*Bin\<close> is the position of
    its slot in \<open>All\<close> (every Bin is reachable through its slot only); nil is \<open>None\<close>.
  \<^item> Methods mutate the receiver (also those with a value receiver, through the shared
    backing arrays of \<open>All\<close> and \<open>tmp\<close>), so each method returns the state after the
    call. A run-time panic is the left summand of the result. Indexing a point given by
    the caller panics when the point is too short; the slices of the receiver have the
    length \<open>Ndim\<close> in every state that \<open>Init\<close> has made.
\<close>

subsection \<open>Numbers\<close>

type_synonym rounding = "real \<Rightarrow> real"

definition exact :: rounding where
  "exact x = x"

text \<open>Go's conversion \<open>int(f)\<close> of a float: the fraction is discarded. (For a float
  beyond the range of \<open>int\<close> the result of the conversion depends on the platform; where
  a theorem depends on the value of a conversion, its hypotheses keep it in range.)\<close>

definition toInt :: "real \<Rightarrow> int" where
  "toInt x = (if 0 \<le> x then \<lfloor>x\<rfloor> else \<lceil>x\<rceil>)"

text \<open>The value of an \<open>int\<close> after an operation with the exact result \<open>i\<close>.\<close>

definition wrap64 :: "int \<Rightarrow> int" where
  "wrap64 i = (i + 2 ^ 63) mod 2 ^ 64 - 2 ^ 63"

text \<open>\<open>math.MaxFloat64\<close>, the largest finite float64: \<open>(2 - 2^-52) * 2^1023\<close>.\<close>

definition MaxFloat64 :: real where
  "MaxFloat64 = (2 ^ 53 - 1) * 2 ^ 971"

subsection \<open>Data\<close>

record BinEntry =
  Id_e :: int
  X :: "real list"

record Bin =
  Idx :: int
  Entries :: "BinEntry list"

record Bins =
  Ndim :: nat
  Xi :: "real list"
  Xf :: "real list"
  L :: "real list"
  S :: "real list"
  N :: "int list"
  All_bins :: "Bin option list"
  tmp :: "int list"

text \<open>The errors made with \<open>chk.Err\<close>, named as the specification names them.\<close>

datatype error =
    InvalidDimension  \<comment> \<open>sizes of xi and l must be the same and equal to either 2 or 3\<close>
  | OutOfRange        \<comment> \<open>point is out of range\<close>
  | IndexOutOfBounds  \<comment> \<open>bin index is out of range\<close>

datatype panic =
    PanicIndex      \<comment> \<open>index out of range on a slice\<close>
  | PanicNil        \<comment> \<open>field access through a nil pointer\<close>
  | PanicMakeSlice  \<comment> \<open>make with a negative length\<close>

text \<open>The zero value of the struct, on which \<open>Init\<close> is called.\<close>

definition Bins_zero :: Bins where
  "Bins_zero = \<lparr>Ndim = 0, Xi = [], Xf = [], L = [], S = [], N = [], All_bins = [], tmp = []\<rparr>"

text \<open>Modelled from the spec: \<open>utl.DblCopy\<close> (package utl is not among the sources)
  returns a private copy of the coordinates; values are immutable here.\<close>

definition DblCopy :: "real list \<Rightarrow> real list" where
  "DblCopy x = x"

subsection \<open>Init\<close>

definition Init :: "rounding \<Rightarrow> Bins \<Rightarrow> real list \<Rightarrow> real list \<Rightarrow> int \<Rightarrow> panic + (error option \<times> Bins)" where
  "Init rnd b xi xf ndiv =
     (let b1 = b\<lparr>Ndim := length xi, Xi := xi, Xf := xf\<rparr> in
      if length xi \<noteq> length xf \<or> length xi < 2 \<or> length xi > 3
      then Inr (Some InvalidDimension, b1)
      else
        let l = map (\<lambda>k. rnd (xf ! k - xi ! k)) [0..<Ndim b1];
            s = map (\<lambda>k. rnd (l ! k / rnd (real_of_int ndiv))) [0..<Ndim b1];
            n = map (\<lambda>k. wrap64 (toInt (rnd (l ! k / s ! k)) + 1)) [0..<Ndim b1];
            nbins = foldl (\<lambda>nb v. wrap64 (nb * v)) 1 n
        in if nbins < 0 then Inl PanicMakeSlice
           else Inr (None, b1\<lparr>L := l, S := s, N := n,
                               All_bins := replicate (nat nbins) None,
                               tmp := replicate (Ndim b1) 0\<rparr>))"

subsection \<open>CalcIdx\<close>

text \<open>The loop over the dimensions: it stops with \<open>False\<close> at the first coordinate outside
  the box, and writes the cell number of every coordinate before that into \<open>tmp\<close>.\<close>

fun CalcIdx_loop :: "rounding \<Rightarrow> real list \<Rightarrow> nat list \<Rightarrow> Bins \<Rightarrow> panic + (bool \<times> Bins)" where
  "CalcIdx_loop rnd x [] b = Inr (True, b)"
| "CalcIdx_loop rnd x (k # ks) b =
     (if length x \<le> k then Inl PanicIndex
      else if x ! k < Xi b ! k \<or> x ! k > Xf b ! k then Inr (False, b)
      else CalcIdx_loop rnd x ks
             (b\<lparr>tmp := (tmp b)[k := toInt (rnd (rnd (x ! k - Xi b ! k) / S b ! k))]\<rparr>))"

definition CalcIdx :: "rounding \<Rightarrow> Bins \<Rightarrow> real list \<Rightarrow> panic + (int \<times> Bins)" where
  "CalcIdx rnd b x =
     (case CalcIdx_loop rnd x [0..<Ndim b] b of
        Inl p \<Rightarrow> Inl p
      | Inr (False, b1) \<Rightarrow> Inr (- 1, b1)
      | Inr (True, b1) \<Rightarrow>
          (let idx = wrap64 (tmp b1 ! 0 + wrap64 (tmp b1 ! 1 * N b1 ! 0));
               idx = (if Ndim b1 > 2
                      then wrap64 (idx + wrap64 (wrap64 (tmp b1 ! 2 * N b1 ! 0) * N b1 ! 1))
                      else idx)
           in Inr (idx, b1)))"

subsection \<open>FindBinByIndex\<close>

text \<open>Returns the pointer to the bin of slot \<open>idx\<close> (the slot's position, with the Bin it
  points to), allocating the Bin when the slot is nil; nil when \<open>idx\<close> is outside the table.\<close>

definition FindBinByIndex :: "Bins \<Rightarrow> int \<Rightarrow> (nat \<times> Bin) option \<times> Bins" where
  "FindBinByIndex b idx =
     (if idx < 0 \<or> idx \<ge> int (length (All_bins b)) then (None, b)
      else (case All_bins b ! nat idx of
              None \<Rightarrow>
                (let nb = \<lparr>Idx = idx, Entries = []\<rparr>
                 in (Some (nat idx, nb), b\<lparr>All_bins := (All_bins b)[nat idx := Some nb]\<rparr>))
            | Some bin \<Rightarrow> (Some (nat idx, bin), b)))"

subsection \<open>Append and Clear\<close>

definition Append :: "rounding \<Rightarrow> Bins \<Rightarrow> real list \<Rightarrow> int \<Rightarrow> panic + (error option \<times> Bins)" where
  "Append rnd b x eid =
     (case CalcIdx rnd b x of
        Inl p \<Rightarrow> Inl p
      | Inr (idx, b1) \<Rightarrow>
          if idx < 0 then Inr (Some OutOfRange, b1)
          else (case FindBinByIndex b1 idx of
                  (None, b2) \<Rightarrow> Inr (Some IndexOutOfBounds, b2)
                | (Some (p, bin), b2) \<Rightarrow>
                    (let xcopy = DblCopy x;
                         entry = \<lparr>Id_e = eid, X = xcopy\<rparr>
                     in Inr (None, b2\<lparr>All_bins :=
                          (All_bins b2)[p := Some (bin\<lparr>Entries := Entries bin @ [entry]\<rparr>)]\<rparr>))))"

definition Clear :: "Bins \<Rightarrow> Bins" where
  "Clear b = b\<lparr>All_bins := []\<rparr>"

subsection \<open>Find\<close>

text \<open>The squared distance accumulated by the inner loop of \<open>Find\<close>.\<close>

definition sqdist :: "rounding \<Rightarrow> nat \<Rightarrow> real list \<Rightarrow> real list \<Rightarrow> real" where
  "sqdist rnd ndim x y = foldl (\<lambda>d k. rnd (d + rnd ((rnd (x ! k - y ! k)) ^ 2))) 0 [0..<ndim]"

text \<open>The loop over the entries of the bin, with the running \<open>dmin\<close> and \<open>id_closest\<close>.\<close>

fun Find_loop :: "rounding \<Rightarrow> nat \<Rightarrow> real list \<Rightarrow> BinEntry list \<Rightarrow> real \<Rightarrow> int \<Rightarrow> int" where
  "Find_loop rnd ndim x [] dmin id_closest = id_closest"
| "Find_loop rnd ndim x (entry # es) dmin id_closest =
     (let d = sqdist rnd ndim x (X entry)
      in if d < dmin then Find_loop rnd ndim x es d (Id_e entry)
         else Find_loop rnd ndim x es dmin id_closest)"

definition Find :: "rounding \<Rightarrow> Bins \<Rightarrow> real list \<Rightarrow> panic + (int \<times> Bins)" where
  "Find rnd b x =
     (case CalcIdx rnd b x of
        Inl p \<Rightarrow> Inl p
      | Inr (idx, b1) \<Rightarrow>
          if idx < 0 then Inr (- 1, b1)
          else (case FindBinByIndex b1 idx of
                  (None, b2) \<Rightarrow> Inl PanicNil
                | (Some (p, bin), b2) \<Rightarrow>
                    Inr (Find_loop rnd (Ndim b2) x (Entries bin) MaxFloat64 (- 1), b2)))"

subsection \<open>FindAlongSegment\<close>

text \<open>Modelled from the spec: the type \<open>gm.Point\<close> (its declaration is not among the
  sources) has the three coordinates \<open>X\<close>, \<open>Y\<close>, \<open>Z\<close>.\<close>

record Point =
  X_p :: real
  Y_p :: real
  Z_p :: real

text \<open>Modelled from the spec: \<open>utl.Max\<close> (package utl is not among the sources) is the
  larger of two numbers.\<close>

definition Max_utl :: "real \<Rightarrow> real \<Rightarrow> real" where
  "Max_utl a c = (if a < c then c else a)"

text \<open>The helpers \<open>gm.DistPointLine\<close> and \<open>gm.IsPointIn\<close> are called by
  \<open>FindAlongSegment\<close>, and their code is not among the sources: the method takes them as
  the parameters \<open>distf\<close> and \<open>inbox\<close>.\<close>

type_synonym dist_fun = "Point \<Rightarrow> Point \<Rightarrow> Point \<Rightarrow> real \<Rightarrow> bool \<Rightarrow> real"
type_synonym isin_fun = "Point \<Rightarrow> real list \<Rightarrow> real list \<Rightarrow> real \<Rightarrow> bool"

text \<open>Modelled from the spec: \<open>gm.DistPointLine\<close>, the distance from \<open>p\<close> to the segment
  from \<open>a\<close> to \<open>c\<close>, measured to the finite segment (the foot of the perpendicular is
  clamped to the segment; a segment of length zero is its one point).\<close>

definition DistPointLine :: dist_fun where
  "DistPointLine p a c tol verbose =
     (let ux = X_p c - X_p a; uy = Y_p c - Y_p a; uz = Z_p c - Z_p a;
          wx = X_p p - X_p a; wy = Y_p p - Y_p a; wz = Z_p p - Z_p a;
          t = max 0 (min 1 ((wx * ux + wy * uy + wz * uz) / (ux * ux + uy * uy + uz * uz)));
          dx = wx - t * ux; dy = wy - t * uy; dz = wz - t * uz
      in sqrt (dx * dx + dy * dy + dz * dz))"

text \<open>Modelled from the spec: \<open>gm.IsPointIn\<close>, whether \<open>p\<close> lies in the axis-aligned box
  spanned by the two corners (componentwise minimum and maximum, inclusive), expanded by
  \<open>tol\<close>.\<close>

definition IsPointIn :: isin_fun where
  "IsPointIn p cMin cMax tol =
     (min (cMin ! 0) (cMax ! 0) - tol \<le> X_p p \<and> X_p p \<le> max (cMin ! 0) (cMax ! 0) + tol \<and>
      min (cMin ! 1) (cMax ! 1) - tol \<le> Y_p p \<and> Y_p p \<le> max (cMin ! 1) (cMax ! 1) + tol \<and>
      min (cMin ! 2) (cMax ! 2) - tol \<le> Z_p p \<and> Z_p p \<le> max (cMin ! 2) (cMax ! 2) + tol)"

text \<open>The centre of the bin of slot \<open>idx\<close>, as the body of the first loop computes it. The
  variable \<open>z\<close> is assigned in 3-D only and is zero otherwise. (A zero \<open>N[0]\<close> or a zero
  \<open>nxy\<close> would make \<open>%\<close> and \<open>/\<close> panic; the table that \<open>Init\<close> allocates is then
  empty, and the body never runs.)\<close>

definition bin_center :: "rounding \<Rightarrow> Bins \<Rightarrow> int \<Rightarrow> Point" where
  "bin_center rnd b idx =
     (let nxy = wrap64 (N b ! 0 * N b ! 1);
          i = idx smod N b ! 0;
          j = (idx smod nxy) sdiv N b ! 0;
          x = rnd (Xi b ! 0 + rnd (rnd (real_of_int i) * S b ! 0));
          y = rnd (Xi b ! 1 + rnd (rnd (real_of_int j) * S b ! 1));
          x = rnd (x + rnd (S b ! 0 / 2));
          y = rnd (y + rnd (S b ! 1 / 2));
          z = (if Ndim b = 3
               then (let k = idx sdiv nxy;
                         z = rnd (Xi b ! 2 + rnd (rnd (real_of_int k) * S b ! 2))
                     in rnd (z + rnd (S b ! 2 / 2)))
               else 0)
      in \<lparr>X_p = x, Y_p = y, Z_p = z\<rparr>)"

text \<open>The first loop, over the slots from position \<open>idx\<close> on: the bins near the line.\<close>

fun select_bins :: "rounding \<Rightarrow> dist_fun \<Rightarrow> Bins \<Rightarrow> Point \<Rightarrow> Point \<Rightarrow> real \<Rightarrow> real \<Rightarrow>
    int \<Rightarrow> Bin option list \<Rightarrow> Bin list \<Rightarrow> Bin list" where
  "select_bins rnd distf b pi_pt pf_pt tol btol idx [] sbins = sbins"
| "select_bins rnd distf b pi_pt pf_pt tol btol idx (None # rest) sbins =
     select_bins rnd distf b pi_pt pf_pt tol btol (idx + 1) rest sbins"
| "select_bins rnd distf b pi_pt pf_pt tol btol idx (Some bin # rest) sbins =
     (let p = bin_center rnd b idx;
          d = distf p pi_pt pf_pt tol False
      in if d \<le> btol
         then select_bins rnd distf b pi_pt pf_pt tol btol (idx + 1) rest (sbins @ [bin])
         else select_bins rnd distf b pi_pt pf_pt tol btol (idx + 1) rest sbins)"

text \<open>The point that the second loop tests for an entry: in 3-D its \<open>z\<close> is read from
  \<open>entry.X[0]\<close>; otherwise \<open>z\<close> is still zero.\<close>

definition entry_point :: "nat \<Rightarrow> BinEntry \<Rightarrow> Point" where
  "entry_point ndim entry =
     (let x = X entry ! 0;
          y = X entry ! 1;
          z = (if ndim = 3 then X entry ! 0 else 0)
      in \<lparr>X_p = x, Y_p = y, Z_p = z\<rparr>)"

text \<open>The second loop: the entries of one bin, and the selected bins.\<close>

fun close_entries :: "dist_fun \<Rightarrow> isin_fun \<Rightarrow> nat \<Rightarrow> Point \<Rightarrow> Point \<Rightarrow> real list \<Rightarrow> real list \<Rightarrow>
    real \<Rightarrow> BinEntry list \<Rightarrow> int list \<Rightarrow> int list" where
  "close_entries distf inbox ndim pi_pt pf_pt xi xf tol [] ids = ids"
| "close_entries distf inbox ndim pi_pt pf_pt xi xf tol (entry # es) ids =
     (let p = entry_point ndim entry;
          d = distf p pi_pt pf_pt tol False
      in if d \<le> tol \<and> inbox p xi xf tol
         then close_entries distf inbox ndim pi_pt pf_pt xi xf tol es (ids @ [Id_e entry])
         else close_entries distf inbox ndim pi_pt pf_pt xi xf tol es ids)"

fun close_ids :: "dist_fun \<Rightarrow> isin_fun \<Rightarrow> nat \<Rightarrow> Point \<Rightarrow> Point \<Rightarrow> real list \<Rightarrow> real list \<Rightarrow>
    real \<Rightarrow> Bin list \<Rightarrow> int list \<Rightarrow> int list" where
  "close_ids distf inbox ndim pi_pt pf_pt xi xf tol [] ids = ids"
| "close_ids distf inbox ndim pi_pt pf_pt xi xf tol (bin # sbins) ids =
     close_ids distf inbox ndim pi_pt pf_pt xi xf tol sbins
       (close_entries distf inbox ndim pi_pt pf_pt xi xf tol (Entries bin) ids)"

text \<open>The tolerance for bins, and the two end points and the box as the method prepares
  them (in 2-D the box gets the \<open>z\<close> range from -1 to 1).\<close>

definition bin_tol :: "rounding \<Rightarrow> Bins \<Rightarrow> real" where
  "bin_tol rnd b =
     (let lmax = Max_utl (S b ! 0) (S b ! 1);
          lmax = (if Ndim b = 3 then Max_utl lmax (S b ! 2) else lmax)
      in rnd (rnd (9 / 10) * lmax))"

definition seg_point :: "nat \<Rightarrow> real list \<Rightarrow> Point" where
  "seg_point ndim xs = \<lparr>X_p = xs ! 0, Y_p = xs ! 1, Z_p = (if ndim = 3 then xs ! 2 else 0)\<rparr>"

definition seg_box :: "nat \<Rightarrow> real list \<Rightarrow> real \<Rightarrow> real list" where
  "seg_box ndim xs z = (if ndim = 3 then xs else [xs ! 0, xs ! 1, z])"

definition FindAlongSegment :: "rounding \<Rightarrow> dist_fun \<Rightarrow> isin_fun \<Rightarrow> Bins \<Rightarrow> real list \<Rightarrow> real list \<Rightarrow> real \<Rightarrow>
    panic + int list" where
  "FindAlongSegment rnd distf inbox b xi xf tol =
     (if length xi < 2 \<or> length xf < 2 \<or> (Ndim b = 3 \<and> (length xi < 3 \<or> length xf < 3))
      then Inl PanicIndex
      else
        let btol = bin_tol rnd b;
            pi_pt = seg_point (Ndim b) xi;
            pf_pt = seg_point (Ndim b) xf;
            xi' = seg_box (Ndim b) xi (- 1);
            xf' = seg_box (Ndim b) xf 1;
            sbins = select_bins rnd distf b pi_pt pf_pt tol btol 0 (All_bins b) [];
            ids = close_ids distf inbox (Ndim b) pi_pt pf_pt xi' xf' tol sbins []
        in Inr ids)"

subsection \<open>Notions used in the statements\<close>

text \<open>The geometry fields of two states agree.\<close>

definition same_geometry :: "Bins \<Rightarrow> Bins \<Rightarrow> bool" where
  "same_geometry b b' =
     (Ndim b' = Ndim b \<and> Xi b' = Xi b \<and> Xf b' = Xf b \<and> L b' = L b \<and> S b' = S b \<and> N b' = N b)"

text \<open>The entry sequence of a slot (none for a nil slot), and all entries of the table.\<close>

definition slot_entries :: "Bin option \<Rightarrow> BinEntry list" where
  "slot_entries s = (case s of None \<Rightarrow> [] | Some bin \<Rightarrow> Entries bin)"


text \<open>A point has a coordinate for every dimension, each inside the bounding box.\<close>

definition in_box :: "Bins \<Rightarrow> real list \<Rightarrow> bool" where
  "in_box b x =
     (Ndim b \<le> length x \<and> list_all (\<lambda>k. Xi b ! k \<le> x ! k \<and> x ! k \<le> Xf b ! k) [0..<Ndim b])"


text \<open>The cell number that \<open>CalcIdx\<close> computes for coordinate \<open>k\<close> of a point.\<close>

definition cell :: "rounding \<Rightarrow> Bins \<Rightarrow> real list \<Rightarrow> nat \<Rightarrow> int" where
  "cell rnd b x k = toInt (rnd (rnd (x ! k - Xi b ! k) / S b ! k))"

text \<open>The number of bins along dimension \<open>k\<close> that \<open>Init\<close> computes from its arguments,
  before it is stored in an \<open>int\<close>, and the product of these numbers.\<close>

definition bin_count :: "rounding \<Rightarrow> real list \<Rightarrow> real list \<Rightarrow> int \<Rightarrow> nat \<Rightarrow> int" where
  "bin_count rnd xi xf ndiv k =
     (let l = rnd (xf ! k - xi ! k);
          s = rnd (l / rnd (real_of_int ndiv))
      in toInt (rnd (l / s)) + 1)"

definition table_size :: "rounding \<Rightarrow> real list \<Rightarrow> real list \<Rightarrow> int \<Rightarrow> int" where
  "table_size rnd xi xf ndiv = prod_list (map (bin_count rnd xi xf ndiv) [0..<length xi])"


text \<open>The states that a grid \<open>b0\<close> can be in while it is in use: after calls of the
  exported methods that return, other than \<open>Clear\<close> and \<open>Init\<close>.\<close>

inductive in_use :: "rounding \<Rightarrow> Bins \<Rightarrow> Bins \<Rightarrow> bool" for rnd :: rounding and b0 :: Bins where
  u_fresh: "in_use rnd b0 b0"
| u_Append: "in_use rnd b0 b \<Longrightarrow> Append rnd b x eid = Inr (err, b') \<Longrightarrow> in_use rnd b0 b'"
| u_Find: "in_use rnd b0 b \<Longrightarrow> Find rnd b x = Inr (r, b') \<Longrightarrow> in_use rnd b0 b'"
| u_CalcIdx: "in_use rnd b0 b \<Longrightarrow> CalcIdx rnd b x = Inr (idx, b') \<Longrightarrow> in_use rnd b0 b'"
| u_FindBinByIndex: "in_use rnd b0 b \<Longrightarrow> FindBinByIndex b idx = (p, b') \<Longrightarrow> in_use rnd b0 b'"

subsection \<open>States of the examples\<close>

text \<open>The grid of the box from (0,0) to (10,10) with 5 divisions, as \<open>Init\<close> leaves it.\<close>

definition grid10 :: Bins where
  "grid10 = \<lparr>Ndim = 2, Xi = [0, 0], Xf = [10, 10], L = [10, 10], S = [2, 2], N = [6, 6],
              All_bins = replicate 36 None, tmp = [0, 0]\<rparr>"

text \<open>The same grid after the insertion of id 1 at (1,1), and after a query in the empty
  cell 0.\<close>

definition grid10_1 :: Bins where
  "grid10_1 = grid10\<lparr>All_bins :=
     (replicate 36 None)[0 := Some \<lparr>Idx = 0, Entries = [\<lparr>Id_e = 1, X = [1, 1]\<rparr>]\<rparr>]\<rparr>"


text \<open>A grid of the box from (0,0) to (2^513,2^513) with one division, as \<open>Init\<close> leaves it
  and after the insertion of id 1 at (2^512,0).\<close>

definition grid_huge0 :: Bins where
  "grid_huge0 = \<lparr>Ndim = 2, Xi = [0, 0], Xf = [2 ^ 513, 2 ^ 513], L = [2 ^ 513, 2 ^ 513],
      S = [2 ^ 513, 2 ^ 513], N = [2, 2], All_bins = replicate 4 None, tmp = [0, 0]\<rparr>"

definition grid_huge :: Bins where
  "grid_huge = grid_huge0\<lparr>All_bins :=
     (replicate 4 None)[0 := Some \<lparr>Idx = 0, Entries = [\<lparr>Id_e = 1, X = [2 ^ 512, 0]\<rparr>]\<rparr>]\<rparr>"

text \<open>The grid of the box from (0,0) to (4,4) with 2 divisions, as \<open>Init\<close> leaves it and
  after the insertion of id 1 at (31/16,1).\<close>

definition grid4 :: Bins where
  "grid4 = \<lparr>Ndim = 2, Xi = [0, 0], Xf = [4, 4], L = [4, 4], S = [2, 2], N = [3, 3],
             All_bins = replicate 9 None, tmp = [0, 0]\<rparr>"


text \<open>The 3-D grid of the box from (0,0,0) to (4,4,4) with one division, as \<open>Init\<close> leaves
  it and after the insertion of id 7 at (1,1,3).\<close>

definition grid8 :: Bins where
  "grid8 = \<lparr>Ndim = 3, Xi = [0, 0, 0], Xf = [4, 4, 4], L = [4, 4, 4], S = [4, 4, 4],
             N = [2, 2, 2], All_bins = replicate 8 None, tmp = [0, 0, 0]\<rparr>"

definition grid8_1 :: Bins where
  "grid8_1 = grid8\<lparr>All_bins :=
     (replicate 8 None)[0 := Some \<lparr>Idx = 0, Entries = [\<lparr>Id_e = 7, X = [1, 1, 3]\<rparr>]\<rparr>]\<rparr>"

text \<open>The example grid after the insertions of id 1 at (1,1) and id 2 at (9,9).\<close>

definition grid10_2 :: Bins where
  "grid10_2 = grid10\<lparr>tmp := [4, 4], All_bins :=
     (replicate 36 None)[0 := Some \<lparr>Idx = 0, Entries = [\<lparr>Id_e = 1, X = [1, 1]\<rparr>]\<rparr>,
                         28 := Some \<lparr>Idx = 28, Entries = [\<lparr>Id_e = 2, X = [9, 9]\<rparr>]\<rparr>]\<rparr>"

text \<open>The grid of the box from (0,0) to (10,10) with the division count -1, as \<open>Init\<close>
  leaves it: the bin sizes are negative and the table is empty.\<close>

definition grid_neg :: Bins where
  "grid_neg = \<lparr>Ndim = 2, Xi = [0, 0], Xf = [10, 10], L = [10, 10], S = [- 10, - 10],
                N = [0, 0], All_bins = [], tmp = [0, 0]\<rparr>"

text \<open>The 3-D grid of the box from (0,0,0) to (4194303,4194303,4194303) with 4194303
  divisions, as \<open>Init\<close> leaves it: each dimension has 2^22 bins of size 1, the product 2^66
  of the three counts wraps to 0, and the table is empty.\<close>

definition grid_wrap :: Bins where
  "grid_wrap = \<lparr>Ndim = 3, Xi = [0, 0, 0], Xf = [4194303, 4194303, 4194303],
      L = [4194303, 4194303, 4194303], S = [1, 1, 1], N = [4194304, 4194304, 4194304],
      All_bins = [], tmp = [0, 0, 0]\<rparr>"

section \<open>Properties\<close>

subsection \<open>Integers in range\<close>

lemma wrap64_id [simp]: "- (2 ^ 63) \<le> i \<Longrightarrow> i < 2 ^ 63 \<Longrightarrow> wrap64 i = i"
  by (simp add: wrap64_def)

subsection \<open>Evaluation of the loops over the dimensions\<close>

lemma upt_0_2: "[0..<2] = [0, Suc 0]"
  by (simp add: numeral_2_eq_2)

lemma upt_0_3: "[0..<3] = [0, Suc 0, 2]"
  by (simp add: numeral_3_eq_3 numeral_2_eq_2)

subsection \<open>What CalcIdx changes\<close>

lemma CalcIdx_loop_frame:
  "CalcIdx_loop rnd x ks b = Inr (r, b') \<Longrightarrow>
     b' = b\<lparr>tmp := tmp b'\<rparr> \<and> length (tmp b') = length (tmp b)"
proof (induction ks arbitrary: b)
  case Nil
  then show ?case by simp
next
  case (Cons k ks)
  show ?case
  proof (cases "length x \<le> k \<or> x ! k < Xi b ! k \<or> x ! k > Xf b ! k")
    case True
    with Cons.prems show ?thesis by (auto split: if_splits)
  next
    case False
    let ?b1 = "b\<lparr>tmp := (tmp b)[k := toInt (rnd (rnd (x ! k - Xi b ! k) / S b ! k))]\<rparr>"
    from False Cons.prems have "CalcIdx_loop rnd x ks ?b1 = Inr (r, b')" by simp
    from Cons.IH [OF this] show ?thesis by simp
  qed
qed

lemma CalcIdx_frame:
  "CalcIdx rnd b x = Inr (idx, b') \<Longrightarrow>
     b' = b\<lparr>tmp := tmp b'\<rparr> \<and> length (tmp b') = length (tmp b)"
  by (auto simp: CalcIdx_def Let_def split: sum.splits prod.splits bool.splits if_splits
      dest: CalcIdx_loop_frame)

lemma CalcIdx_All_bins:
  "CalcIdx rnd b x = Inr (idx, b') \<Longrightarrow> All_bins b' = All_bins b"
  using CalcIdx_frame [of rnd b x idx b'] by (cases b, cases b') simp

subsection \<open>The example grid\<close>

lemma Init_grid10: "Init exact Bins_zero [0, 0] [10, 10] 5 = Inr (None, grid10)"
  by (simp add: Init_def Bins_zero_def exact_def toInt_def Let_def grid10_def)

lemma CalcIdx_Clear_grid10: "CalcIdx exact (Clear grid10) [1, 1] = Inr (0, Clear grid10)"
  by (simp add: CalcIdx_def Clear_def grid10_def exact_def toInt_def upt_0_2)

subsection \<open>Clear\<close>

text \<open>After \<open>Clear\<close> the table has length zero, so no slot is in range any more: whatever
  the point, \<open>Append\<close> does not succeed.\<close>

lemma Append_after_Clear: "Append rnd (Clear b) x eid \<noteq> Inr (None, b')"
  by (auto simp: Append_def Clear_def FindBinByIndex_def
      split: sum.splits prod.splits option.splits if_splits dest!: CalcIdx_All_bins)

text \<open>
  C1 (the claim: after \<open>clear()\<close> the geometry is unchanged and an insert of a point
  inside the box succeeds). On the code the insert fails: on \<open>grid10\<close>, the grid that
  \<open>Init\<close> makes of the box from (0,0) to (10,10) with 5 divisions, \<open>Clear\<close> followed by
  \<open>Append\<close> of the point (1,1) returns the error "bin index is out of range", and nothing
  is stored.
\<close>

theorem Clear_then_Append_fails:
  "Append exact (Clear grid10) [1, 1] 1 = Inr (Some IndexOutOfBounds, Clear grid10)"
  by (simp add: Append_def CalcIdx_Clear_grid10 FindBinByIndex_def) (simp add: Clear_def)

text \<open>
  C2 (the claim: \<open>clear()\<close> followed by \<open>find_nearest\<close> of a point inside the box returns
  -1). On the code the call does not return: on the same grid, \<open>Clear\<close> followed by \<open>Find\<close>
  of the point (1,1) reads the entries of a nil bin and panics.
\<close>

theorem Clear_then_Find_panics:
  "Find exact (Clear grid10) [1, 1] = Inl PanicNil"
  by (simp add: Find_def CalcIdx_Clear_grid10 FindBinByIndex_def) (simp add: Clear_def)

subsection \<open>Frames of Append and Find, and the nearest entry\<close>

lemma CalcIdx_same_geometry:
  "CalcIdx rnd b x = Inr (idx, b') \<Longrightarrow> same_geometry b b'"
  using CalcIdx_frame [of rnd b x idx b'] by (cases b, cases b') (simp add: same_geometry_def)


lemma slot_entries_simps [simp]:
  "slot_entries None = []" "slot_entries (Some bin) = Entries bin"
  by (simp_all add: slot_entries_def)

lemma Bins_update_same:
  "xs ! p = v \<Longrightarrow> p < length xs \<Longrightarrow> All_bins b = xs \<Longrightarrow> b\<lparr>All_bins := xs[p := v]\<rparr> = b"
  by (cases b) (simp add: list_update_same_conv)

lemma FindBinByIndex_Some:
  "FindBinByIndex b idx = (Some (p, bin), b') \<Longrightarrow>
     0 \<le> idx \<and> p = nat idx \<and> p < length (All_bins b) \<and>
     b' = b\<lparr>All_bins := (All_bins b)[p := Some bin]\<rparr> \<and>
     (All_bins b ! p = Some bin \<or> All_bins b ! p = None \<and> bin = \<lparr>Idx = idx, Entries = []\<rparr>)"
  by (auto simp: FindBinByIndex_def Let_def Bins_update_same split: if_splits option.splits)

lemma FindBinByIndex_entries:
  "FindBinByIndex b idx = (Some (p, bin), b') \<Longrightarrow> Entries bin = slot_entries (All_bins b ! p)"
  by (auto dest!: FindBinByIndex_Some)

lemma Append_effect:
  assumes "Append rnd b x eid = Inr (None, b')"
  shows "\<exists>idx b1. CalcIdx rnd b x = Inr (idx, b1) \<and> 0 \<le> idx \<and> nat idx < length (All_bins b) \<and>
           slot_entries (All_bins b' ! nat idx) =
             slot_entries (All_bins b ! nat idx) @ [\<lparr>Id_e = eid, X = x\<rparr>] \<and>
           (\<forall>j. j \<noteq> nat idx \<longrightarrow> All_bins b' ! j = All_bins b ! j) \<and>
           length (All_bins b') = length (All_bins b) \<and>
           same_geometry b b'"
proof -
  from assms obtain idx b1 where c: "CalcIdx rnd b x = Inr (idx, b1)" and nn: "\<not> idx < 0"
    by (auto simp: Append_def split: sum.splits prod.splits if_splits)
  from assms c nn obtain p bin b2 where f: "FindBinByIndex b1 idx = (Some (p, bin), b2)"
    and b': "b' = b2\<lparr>All_bins := (All_bins b2)[p := Some (bin\<lparr>Entries := Entries bin @ [\<lparr>Id_e = eid, X = DblCopy x\<rparr>]\<rparr>)]\<rparr>"
    by (auto simp: Append_def Let_def split: prod.splits option.splits)
  note fs = FindBinByIndex_Some [OF f]
  have all1: "All_bins b1 = All_bins b" by (rule CalcIdx_All_bins [OF c])
  have g1: "same_geometry b b1" by (rule CalcIdx_same_geometry [OF c])
  from fs have p: "p = nat idx" "p < length (All_bins b)" using all1 by simp_all
  from fs have b2: "b2 = b1\<lparr>All_bins := (All_bins b1)[p := Some bin]\<rparr>" by simp
  have e: "Entries bin = slot_entries (All_bins b ! p)"
    using FindBinByIndex_entries [OF f] all1 by simp
  have all': "All_bins b' = (All_bins b)[p := Some (bin\<lparr>Entries := Entries bin @ [\<lparr>Id_e = eid, X = x\<rparr>]\<rparr>)]"
    by (simp add: b' b2 all1 DblCopy_def)
  have "slot_entries (All_bins b' ! p) = slot_entries (All_bins b ! p) @ [\<lparr>Id_e = eid, X = x\<rparr>]"
    using p(2) by (simp add: all' e [symmetric])
  moreover have "\<forall>j. j \<noteq> p \<longrightarrow> All_bins b' ! j = All_bins b ! j"
    by (simp add: all')
  moreover have "length (All_bins b') = length (All_bins b)" by (simp add: all')
  moreover have "same_geometry b b'" using g1 by (simp add: b' b2 same_geometry_def)
  ultimately show ?thesis using c nn p by auto
qed

text \<open>
  C10: a successful \<open>Append\<close> appends exactly one entry, with the given id and the
  coordinates of the point, at the end of the entry sequence of the slot that \<open>CalcIdx\<close>
  gives; every other slot, the length of the table and the geometry fields are unchanged.
\<close>

theorem Append_frame:
  assumes "Append rnd b x eid = Inr (None, b')"
  shows "\<exists>idx b1. CalcIdx rnd b x = Inr (idx, b1) \<and> 0 \<le> idx \<and> nat idx < length (All_bins b) \<and>
           slot_entries (All_bins b' ! nat idx) =
             slot_entries (All_bins b ! nat idx) @ [\<lparr>Id_e = eid, X = x\<rparr>] \<and>
           (\<forall>j. j \<noteq> nat idx \<longrightarrow> All_bins b' ! j = All_bins b ! j) \<and>
           length (All_bins b') = length (All_bins b) \<and>
           same_geometry b b'"
  using assms by (rule Append_effect)

lemma Find_effect:
  assumes "Find rnd b x = Inr (r, b')"
  shows "same_geometry b b' \<and> length (All_bins b') = length (All_bins b) \<and>
         (\<forall>j < length (All_bins b).
            slot_entries (All_bins b' ! j) = slot_entries (All_bins b ! j) \<and>
            (All_bins b' ! j = All_bins b ! j \<or>
             All_bins b ! j = None \<and> All_bins b' ! j = Some \<lparr>Idx = int j, Entries = []\<rparr>)) \<and>
         (\<exists>p. \<forall>j. j \<noteq> p \<longrightarrow> All_bins b' ! j = All_bins b ! j)"
proof -
  from assms obtain idx b1 where c: "CalcIdx rnd b x = Inr (idx, b1)"
    by (auto simp: Find_def split: sum.splits prod.splits)
  have all1: "All_bins b1 = All_bins b" by (rule CalcIdx_All_bins [OF c])
  have g1: "same_geometry b b1" by (rule CalcIdx_same_geometry [OF c])
  show ?thesis
  proof (cases "idx < 0")
    case True
    with assms c have "b' = b1" by (simp add: Find_def)
    with all1 g1 show ?thesis by simp
  next
    case False
    with assms c obtain p bin where f: "FindBinByIndex b1 idx = (Some (p, bin), b')"
      by (auto simp: Find_def split: prod.splits option.splits)
    note fs = FindBinByIndex_Some [OF f]
    from fs have all': "All_bins b' = (All_bins b)[p := Some bin]" using all1 by simp
    from fs have p: "p = nat idx" "p < length (All_bins b)" "0 \<le> idx" using all1 by simp_all
    from fs have bin: "All_bins b ! p = Some bin \<or> All_bins b ! p = None \<and> bin = \<lparr>Idx = int p, Entries = []\<rparr>"
      using all1 p by auto
    have "same_geometry b b'" using g1 fs by (simp add: same_geometry_def)
    moreover have "length (All_bins b') = length (All_bins b)" by (simp add: all')
    moreover have "\<forall>j < length (All_bins b).
            slot_entries (All_bins b' ! j) = slot_entries (All_bins b ! j) \<and>
            (All_bins b' ! j = All_bins b ! j \<or>
             All_bins b ! j = None \<and> All_bins b' ! j = Some \<lparr>Idx = int j, Entries = []\<rparr>)"
      using bin p by (auto simp: all' nth_list_update)
    moreover have "\<forall>j. j \<noteq> p \<longrightarrow> All_bins b' ! j = All_bins b ! j" by (simp add: all')
    ultimately show ?thesis by blast
  qed
qed


lemma Find_loop_none:
  "\<forall>e\<in>set es. \<not> sqdist rnd n x (X e) < dmin \<Longrightarrow> Find_loop rnd n x es dmin idc = idc"
  by (induction es) (simp_all add: Let_def)

lemma Find_loop_min:
  "\<exists>e\<in>set es. sqdist rnd n x (X e) < dmin \<Longrightarrow>
   \<exists>i<length es. Find_loop rnd n x es dmin idc = Id_e (es ! i) \<and>
      sqdist rnd n x (X (es ! i)) < dmin \<and>
      (\<forall>j<length es. sqdist rnd n x (X (es ! i)) \<le> sqdist rnd n x (X (es ! j))) \<and>
      (\<forall>j<i. sqdist rnd n x (X (es ! i)) < sqdist rnd n x (X (es ! j)))"
proof (induction es arbitrary: dmin idc)
  case Nil
  then show ?case by simp
next
  case (Cons e es)
  let ?d = "\<lambda>e. sqdist rnd n x (X e)"
  show ?case
  proof (cases "?d e < dmin")
    case True
    show ?thesis
    proof (cases "\<exists>e'\<in>set es. ?d e' < ?d e")
      case better: True
      from Cons.IH [OF better, of "Id_e e"] obtain i where i: "i < length es"
        "Find_loop rnd n x es (?d e) (Id_e e) = Id_e (es ! i)"
        "?d (es ! i) < ?d e"
        "\<forall>j<length es. ?d (es ! i) \<le> ?d (es ! j)"
        "\<forall>j<i. ?d (es ! i) < ?d (es ! j)" by blast
      have "Suc i < length (e # es)" using i by simp
      moreover have "Find_loop rnd n x (e # es) dmin idc = Id_e ((e # es) ! Suc i)"
        using True i by simp
      moreover have "?d ((e # es) ! Suc i) < dmin" using i True by simp
      moreover have "\<forall>j<length (e # es). ?d ((e # es) ! Suc i) \<le> ?d ((e # es) ! j)"
        using i by (auto simp: nth_Cons split: nat.splits)
      moreover have "\<forall>j<Suc i. ?d ((e # es) ! Suc i) < ?d ((e # es) ! j)"
        using i by (auto simp: nth_Cons split: nat.splits)
      ultimately show ?thesis by blast
    next
      case nobetter: False
      then have "Find_loop rnd n x es (?d e) (Id_e e) = Id_e e"
        by (intro Find_loop_none) simp
      then have "Find_loop rnd n x (e # es) dmin idc = Id_e ((e # es) ! 0)"
        using True by simp
      moreover have "\<forall>j<length (e # es). ?d ((e # es) ! 0) \<le> ?d ((e # es) ! j)"
        using nobetter by (auto simp: nth_Cons not_less split: nat.splits)
      ultimately show ?thesis using True by (intro exI [of _ 0]) simp
    qed
  next
    case False
    with Cons.prems have ex: "\<exists>e'\<in>set es. ?d e' < dmin" by auto
    from Cons.IH [OF ex, of idc] obtain i where i: "i < length es"
        "Find_loop rnd n x es dmin idc = Id_e (es ! i)"
        "?d (es ! i) < dmin"
        "\<forall>j<length es. ?d (es ! i) \<le> ?d (es ! j)"
        "\<forall>j<i. ?d (es ! i) < ?d (es ! j)" by blast
    have lt: "?d (es ! i) < ?d e" using i False by simp
    have "Suc i < length (e # es)" using i by simp
    moreover have "Find_loop rnd n x (e # es) dmin idc = Id_e ((e # es) ! Suc i)"
      using False i by simp
    moreover have "?d ((e # es) ! Suc i) < dmin" using i by simp
    moreover have "\<forall>j<length (e # es). ?d ((e # es) ! Suc i) \<le> ?d ((e # es) ! j)"
      using i lt by (auto simp: nth_Cons split: nat.splits)
    moreover have "\<forall>j<Suc i. ?d ((e # es) ! Suc i) < ?d ((e # es) ! j)"
      using i lt by (auto simp: nth_Cons split: nat.splits)
    ultimately show ?thesis by blast
  qed
qed

lemma Append_grid10: "Append exact grid10 [1, 1] 1 = Inr (None, grid10_1)"
  by (simp add: Append_def CalcIdx_def FindBinByIndex_def grid10_def grid10_1_def exact_def
      toInt_def upt_0_2 DblCopy_def Let_def)


text \<open>The frame property at the first insertion of the example: id 1 at the point (1,1).\<close>

theorem Append_frame_witness:
  "Append exact grid10 [1, 1] 1 = Inr (None, grid10_1) \<and>
   slot_entries (All_bins grid10_1 ! 0) = slot_entries (All_bins grid10 ! 0) @ [\<lparr>Id_e = 1, X = [1, 1]\<rparr>] \<and>
   same_geometry grid10 grid10_1"
proof -
  from Append_frame [OF Append_grid10] have "same_geometry grid10 grid10_1" by blast
  then show ?thesis by (simp add: Append_grid10) (simp add: grid10_def grid10_1_def)
qed



text \<open>
  C5, amended: when the bin of the query point holds an entry whose squared distance to
  the point (as the loop computes it) is below \<open>MaxFloat64\<close>, \<open>Find\<close> returns the id of an
  entry of that one bin whose squared distance is least among the entries of the bin, and
  the first such entry in insertion order.
\<close>

theorem Find_nearest_in_bin:
  assumes "CalcIdx rnd b x = Inr (idx, b1)" and "0 \<le> idx" and "nat idx < length (All_bins b)"
    and "All_bins b ! nat idx = Some bin"
    and "\<exists>e\<in>set (Entries bin). sqdist rnd (Ndim b) x (X e) < MaxFloat64"
  shows "\<exists>i<length (Entries bin).
           Find rnd b x = Inr (Id_e (Entries bin ! i), b1) \<and>
           (\<forall>j<length (Entries bin).
              sqdist rnd (Ndim b) x (X (Entries bin ! i)) \<le> sqdist rnd (Ndim b) x (X (Entries bin ! j))) \<and>
           (\<forall>j<i. sqdist rnd (Ndim b) x (X (Entries bin ! i)) < sqdist rnd (Ndim b) x (X (Entries bin ! j)))"
proof -
  have all1: "All_bins b1 = All_bins b" by (rule CalcIdx_All_bins [OF assms(1)])
  have nd: "Ndim b1 = Ndim b"
    using CalcIdx_same_geometry [OF assms(1)] by (simp add: same_geometry_def)
  have f: "FindBinByIndex b1 idx = (Some (nat idx, bin), b1)"
    using assms(2-4) all1 by (simp add: FindBinByIndex_def)
  have eq: "Find rnd b x = Inr (Find_loop rnd (Ndim b) x (Entries bin) MaxFloat64 (- 1), b1)"
    using assms(1,2) f nd by (simp add: Find_def)
  from Find_loop_min [OF assms(5), of "- 1"] show ?thesis
    unfolding eq by blast
qed

lemma Append_grid_huge: "Append exact grid_huge0 [2 ^ 512, 0] 1 = Inr (None, grid_huge)"
  by (simp add: Append_def CalcIdx_def FindBinByIndex_def grid_huge0_def grid_huge_def exact_def
      toInt_def upt_0_2 DblCopy_def Let_def)

lemma Init_grid_huge0: "Init exact Bins_zero [0, 0] [2 ^ 513, 2 ^ 513] 1 = Inr (None, grid_huge0)"
  by (simp add: Init_def Bins_zero_def exact_def toInt_def Let_def grid_huge0_def)

lemma sqdist_2: "sqdist rnd 2 x y =
  rnd (rnd (0 + rnd ((rnd (x ! 0 - y ! 0))\<^sup>2)) + rnd ((rnd (x ! 1 - y ! 1))\<^sup>2))"
  by (simp add: sqdist_def upt_0_2)

text \<open>
  C5 (the claim: whenever the bin of the query point holds an entry, \<open>Find\<close> returns the id
  of the nearest entry of the bin). The running minimum starts at \<open>MaxFloat64\<close>: in the
  box from (0,0) to (2^513,2^513) with one division, the entry at (2^512,0) lies in the
  bin of the query point (0,0) at the squared distance 2^1024, which is not below
  \<open>MaxFloat64\<close> (in float64 it is +Inf, which is not below it either), and \<open>Find\<close>
  returns -1.
\<close>

theorem Find_misses_far_entry:
  "Append exact grid_huge0 [2 ^ 512, 0] 1 = Inr (None, grid_huge) \<and>
   Find exact grid_huge [0, 0] = Inr (- 1, grid_huge)"
proof (intro conjI)
  show "Append exact grid_huge0 [2 ^ 512, 0] 1 = Inr (None, grid_huge)"
    by (rule Append_grid_huge)
  show "Find exact grid_huge [0, 0] = Inr (- 1, grid_huge)"
    by (simp add: Find_def CalcIdx_def FindBinByIndex_def grid_huge0_def grid_huge_def exact_def
        toInt_def upt_0_2 sqdist_2 MaxFloat64_def Let_def)
qed

lemma CalcIdx_grid10_1: "CalcIdx exact grid10_1 [1 / 2, 1 / 2] = Inr (0, grid10_1)"
  by (simp add: CalcIdx_def grid10_def grid10_1_def exact_def toInt_def upt_0_2)

text \<open>The nearest entry at the query (1/2,1/2) of the example, after the insertion of id 1.\<close>

theorem Find_nearest_in_bin_witness:
  "CalcIdx exact grid10_1 [1 / 2, 1 / 2] = Inr (0, grid10_1) \<and>
   Find exact grid10_1 [1 / 2, 1 / 2] = Inr (1, grid10_1)"
proof -
  let ?bin = "\<lparr>Idx = 0, Entries = [\<lparr>Id_e = 1, X = [1, 1]\<rparr>]\<rparr>"
  have a: "(0::int) \<le> 0" by simp
  have l: "nat 0 < length (All_bins grid10_1)" by (simp add: grid10_1_def grid10_def)
  have s: "All_bins grid10_1 ! nat 0 = Some ?bin" by (simp add: grid10_1_def grid10_def)
  have d: "\<exists>e\<in>set (Entries ?bin). sqdist exact (Ndim grid10_1) [1 / 2, 1 / 2] (X e) < MaxFloat64"
    by (simp add: grid10_1_def grid10_def sqdist_2 exact_def MaxFloat64_def power2_eq_square)
  from Find_nearest_in_bin [OF CalcIdx_grid10_1 a l s d]
  show ?thesis by (simp add: CalcIdx_grid10_1)
qed

subsection \<open>The flat index of a point inside the box\<close>

text \<open>Truncation toward zero is monotone.\<close>

lemma toInt_mono: "x \<le> y \<Longrightarrow> toInt x \<le> toInt y"
proof -
  assume xy: "x \<le> y"
  consider "0 \<le> x" | "x < 0" "0 \<le> y" | "y < 0" using xy by linarith
  then show ?thesis
  proof cases
    case 1
    with xy show ?thesis by (simp add: toInt_def floor_mono)
  next
    case 2
    then have "\<lceil>x\<rceil> \<le> 0" "0 \<le> \<lfloor>y\<rfloor>" by (simp_all add: ceiling_le_iff)
    then have "\<lceil>x\<rceil> \<le> \<lfloor>y\<rfloor>" by linarith
    with 2 show ?thesis by (simp add: toInt_def)
  next
    case 3
    with xy show ?thesis by (simp add: toInt_def ceiling_mono)
  qed
qed

lemma toInt_nonneg: "0 \<le> x \<Longrightarrow> 0 \<le> toInt x"
  by (simp add: toInt_def)

lemma toInt_0 [simp]: "toInt 0 = 0"
  by (simp add: toInt_def)

lemma rnd_nonneg: "mono rnd \<Longrightarrow> rnd 0 = 0 \<Longrightarrow> 0 \<le> x \<Longrightarrow> 0 \<le> rnd x"
  by (metis monoD)

lemma cell_tmp [simp]: "cell rnd (b\<lparr>tmp := t\<rparr>) x k = cell rnd b x k"
  by (simp add: cell_def)

text \<open>For a point inside the box the loop of \<open>CalcIdx\<close> runs to its end and writes
  the cell number of every dimension.\<close>

lemma CalcIdx_loop_True:
  "\<forall>k\<in>set ks. k < length x \<and> Xi b ! k \<le> x ! k \<and> x ! k \<le> Xf b ! k \<Longrightarrow>
   CalcIdx_loop rnd x ks b = Inr (True, b\<lparr>tmp := foldl (\<lambda>t k. t[k := cell rnd b x k]) (tmp b) ks\<rparr>)"
proof (induction ks arbitrary: b)
  case Nil
  then show ?case by simp
next
  case (Cons k ks)
  let ?b1 = "b\<lparr>tmp := (tmp b)[k := cell rnd b x k]\<rparr>"
  from Cons.prems have "\<forall>j\<in>set ks. j < length x \<and> Xi ?b1 ! j \<le> x ! j \<and> x ! j \<le> Xf ?b1 ! j"
    by simp
  from Cons.IH [OF this] Cons.prems show ?case
    by (simp add: cell_def [symmetric] not_less)
qed

lemma in_box_iff:
  "in_box b x \<longleftrightarrow> Ndim b \<le> length x \<and> (\<forall>k<Ndim b. Xi b ! k \<le> x ! k \<and> x ! k \<le> Xf b ! k)"
  by (auto simp: in_box_def list_all_iff)

lemma CalcIdx_in_box_2:
  assumes "Ndim b = 2" "length (tmp b) = 2" "in_box b x"
  shows "\<exists>b1. CalcIdx rnd b x =
     Inr (wrap64 (cell rnd b x 0 + wrap64 (cell rnd b x 1 * N b ! 0)), b1)"
proof -
  from assms(1,3) have "\<forall>k\<in>set [0..<Ndim b]. k < length x \<and> Xi b ! k \<le> x ! k \<and> x ! k \<le> Xf b ! k"
    by (auto simp: in_box_iff)
  from CalcIdx_loop_True [OF this, of rnd] assms(1,2) show ?thesis
    by (simp add: CalcIdx_def upt_0_2)
qed

lemma CalcIdx_in_box_3:
  assumes "Ndim b = 3" "length (tmp b) = 3" "in_box b x"
  shows "\<exists>b1. CalcIdx rnd b x =
     Inr (wrap64 (wrap64 (cell rnd b x 0 + wrap64 (cell rnd b x 1 * N b ! 0)) +
          wrap64 (wrap64 (cell rnd b x 2 * N b ! 0) * N b ! 1)), b1)"
proof -
  from assms(1,3) have "\<forall>k\<in>set [0..<Ndim b]. k < length x \<and> Xi b ! k \<le> x ! k \<and> x ! k \<le> Xf b ! k"
    by (auto simp: in_box_iff)
  from CalcIdx_loop_True [OF this, of rnd] assms(1,2) show ?thesis
    by (simp add: CalcIdx_def upt_0_3)
qed

text \<open>What a successful \<open>Init\<close> leaves in the fields.\<close>

lemma Init_Inr:
  assumes "Init rnd b0 xi xf ndiv = Inr (None, b)"
  shows "Ndim b = length xi" "length xf = length xi" "Ndim b = 2 \<or> Ndim b = 3"
    "Xi b = xi" "Xf b = xf" "length (tmp b) = Ndim b" "length (N b) = Ndim b"
    "\<forall>k<Ndim b. L b ! k = rnd (xf ! k - xi ! k) \<and> S b ! k = rnd (L b ! k / rnd (real_of_int ndiv)) \<and>
        N b ! k = wrap64 (bin_count rnd xi xf ndiv k)"
    "0 \<le> foldl (\<lambda>nb v. wrap64 (nb * v)) 1 (N b)"
    "All_bins b = replicate (nat (foldl (\<lambda>nb v. wrap64 (nb * v)) 1 (N b))) None"
  using assms by (auto simp: Init_def Let_def bin_count_def split: if_splits)

lemma list_2: "length xs = 2 \<Longrightarrow> xs = [xs ! 0, xs ! 1]"
  by (cases xs; cases "tl xs") auto

lemma list_3: "length xs = 3 \<Longrightarrow> xs = [xs ! 0, xs ! 1, xs ! 2]"
  by (cases xs; cases "tl xs"; cases "tl (tl xs)") auto

lemma prod_list_2: "length xs = 2 \<Longrightarrow> prod_list xs = xs ! 0 * xs ! 1" for xs :: "int list"
  by (subst list_2 [of xs]) simp_all

lemma prod_list_3: "length xs = 3 \<Longrightarrow> prod_list xs = xs ! 0 * xs ! 1 * xs ! 2" for xs :: "int list"
  by (subst list_3 [of xs]) (simp_all add: mult.assoc)

text \<open>Bounds of the flat index from bounds of the cell numbers.\<close>

lemma idx_bound_2:
  fixes c0 c1 n0 n1 :: int
  assumes "0 \<le> c0" "c0 \<le> n0 - 1" "0 \<le> c1" "c1 \<le> n1 - 1"
  shows "0 \<le> c0 + c1 * n0" "c0 + c1 * n0 < n0 * n1"
proof -
  have n0: "0 \<le> n0" using assms by linarith
  have "0 \<le> c1 * n0" using assms(3) n0 by simp
  then show "0 \<le> c0 + c1 * n0" using assms(1) by linarith
  have "c1 * n0 \<le> (n1 - 1) * n0" using assms(4) n0 by (rule mult_right_mono)
  then have "c1 * n0 \<le> n0 * n1 - n0" by (simp add: algebra_simps)
  then show "c0 + c1 * n0 < n0 * n1" using assms(2) by linarith
qed

lemma idx_bound_3:
  fixes c0 c1 c2 n0 n1 n2 :: int
  assumes "0 \<le> c0" "c0 \<le> n0 - 1" "0 \<le> c1" "c1 \<le> n1 - 1" "0 \<le> c2" "c2 \<le> n2 - 1"
  shows "0 \<le> c0 + c1 * n0 + c2 * n0 * n1" "c0 + c1 * n0 + c2 * n0 * n1 < n0 * n1 * n2"
proof -
  have n0: "0 \<le> n0" and n1: "0 \<le> n1" using assms by linarith+
  have n01: "0 \<le> n0 * n1" using n0 n1 by simp
  have "0 \<le> c2 * (n0 * n1)" using assms(5) n01 by simp
  then have p2: "0 \<le> c2 * n0 * n1" by (simp add: mult.assoc)
  from idx_bound_2 [OF assms(1-4)] have a: "0 \<le> c0 + c1 * n0" and b: "c0 + c1 * n0 < n0 * n1" .
  show "0 \<le> c0 + c1 * n0 + c2 * n0 * n1" using a p2 by linarith
  have "c2 * (n0 * n1) \<le> (n2 - 1) * (n0 * n1)" using assms(6) n01 by (rule mult_right_mono)
  then have "c2 * n0 * n1 \<le> n0 * n1 * n2 - n0 * n1" by (simp add: algebra_simps)
  then show "c0 + c1 * n0 + c2 * n0 * n1 < n0 * n1 * n2" using b by linarith
qed

text \<open>When the product of the bin counts is in the range of \<open>int\<close>, nothing wraps: neither
  the counts, nor the table size, nor the flat index.\<close>

lemma fold_wrap_2:
  assumes "1 \<le> a" "1 \<le> c" "a * c < 2 ^ 63"
  shows "wrap64 a = a" "wrap64 c = c" "foldl (\<lambda>nb v. wrap64 (nb * v)) 1 [a, c] = a * c"
proof -
  have "a * 1 \<le> a * c" using assms(1,2) by (intro mult_left_mono) simp_all
  then have a: "a < 2 ^ 63" using assms(3) by simp
  have "1 * c \<le> a * c" using assms(1,2) by (intro mult_right_mono) simp_all
  then have c: "c < 2 ^ 63" using assms(3) by simp
  show wa: "wrap64 a = a" using assms(1) a by simp
  show "wrap64 c = c" using assms(2) c by simp
  have "0 \<le> a * c" using assms(1,2) by simp
  then have "wrap64 (a * c) = a * c" using assms(3) by simp
  then show "foldl (\<lambda>nb v. wrap64 (nb * v)) 1 [a, c] = a * c" by (simp add: wa)
qed

lemma fold_wrap_3:
  assumes "1 \<le> a" "1 \<le> c" "1 \<le> d" "a * c * d < 2 ^ 63"
  shows "wrap64 a = a" "wrap64 c = c" "wrap64 d = d"
    "foldl (\<lambda>nb v. wrap64 (nb * v)) 1 [a, c, d] = a * c * d"
proof -
  have ac1: "1 \<le> a * c" using assms(1,2) by (metis mult_mono' mult_1 zero_le_one)
  have "a * c * 1 \<le> a * c * d" using ac1 assms(3) by (intro mult_left_mono) simp_all
  then have ac: "a * c < 2 ^ 63" using assms(4) by simp
  have "1 * d \<le> a * c * d" using ac1 assms(3) by (intro mult_right_mono) simp_all
  then have d: "d < 2 ^ 63" using assms(4) by simp
  note two = fold_wrap_2 [OF assms(1,2) ac]
  show "wrap64 a = a" "wrap64 c = c" by (rule two)+
  show "wrap64 d = d" using assms(3) d by simp
  have "0 \<le> a * c * d" using ac1 assms(3) by simp
  then have "wrap64 (a * c * d) = a * c * d" using assms(4) by simp
  with two(3) show "foldl (\<lambda>nb v. wrap64 (nb * v)) 1 [a, c, d] = a * c * d" by simp
qed

lemma idx_wrap_2:
  fixes c0 c1 n0 n1 :: int
  assumes "0 \<le> c0" "c0 \<le> n0 - 1" "0 \<le> c1" "c1 \<le> n1 - 1" "n0 * n1 < 2 ^ 63"
  shows "wrap64 (c0 + wrap64 (c1 * n0)) = c0 + c1 * n0"
proof -
  from idx_bound_2 [OF assms(1-4)] have s: "0 \<le> c0 + c1 * n0" "c0 + c1 * n0 < n0 * n1" .
  have n0: "0 \<le> n0" using assms by linarith
  have p: "0 \<le> c1 * n0" using assms(3) n0 by simp
  have "c1 * n0 < 2 ^ 63" using s assms(1,5) by linarith
  with p have "wrap64 (c1 * n0) = c1 * n0" by simp
  moreover have "wrap64 (c0 + c1 * n0) = c0 + c1 * n0" using s assms(5) by simp
  ultimately show ?thesis by simp
qed

lemma idx_wrap_3:
  fixes c0 c1 c2 n0 n1 n2 :: int
  assumes "0 \<le> c0" "c0 \<le> n0 - 1" "0 \<le> c1" "c1 \<le> n1 - 1" "0 \<le> c2" "c2 \<le> n2 - 1"
    and "n0 * n1 * n2 < 2 ^ 63"
  shows "wrap64 (wrap64 (c0 + wrap64 (c1 * n0)) + wrap64 (wrap64 (c2 * n0) * n1)) =
           c0 + c1 * n0 + c2 * n0 * n1"
proof -
  have n0: "1 \<le> n0" and n1: "1 \<le> n1" and n2: "1 \<le> n2" using assms by linarith+
  have n01: "1 \<le> n0 * n1" using n0 n1 by (metis mult_mono' mult_1 zero_le_one)
  have "n0 * n1 * 1 \<le> n0 * n1 * n2" using n01 n2 by (intro mult_left_mono) simp_all
  then have small: "n0 * n1 < 2 ^ 63" using assms(7) by simp
  note first = idx_wrap_2 [OF assms(1-4) small]
  from idx_bound_3 [OF assms(1-6)]
  have s: "0 \<le> c0 + c1 * n0 + c2 * n0 * n1" "c0 + c1 * n0 + c2 * n0 * n1 < n0 * n1 * n2" .
  have f: "0 \<le> c0 + c1 * n0" by (rule idx_bound_2(1) [OF assms(1-4)])
  have p: "0 \<le> c2 * n0" using assms(5) n0 by simp
  have "c2 * n0 * 1 \<le> c2 * n0 * n1" using p n1 by (intro mult_left_mono) simp_all
  then have q: "c2 * n0 \<le> c2 * n0 * n1" by simp
  have r: "c2 * n0 * n1 < 2 ^ 63" using s f assms(7) by linarith
  have "wrap64 (c2 * n0) = c2 * n0" using p q r by simp
  moreover have "wrap64 (c2 * n0 * n1) = c2 * n0 * n1" using p q r by simp
  moreover have "wrap64 (c0 + c1 * n0 + c2 * n0 * n1) = c0 + c1 * n0 + c2 * n0 * n1"
    using s assms(7) by simp
  ultimately show ?thesis by (simp add: first)
qed

text \<open>The bin count of a dimension with \<open>xi[k] \<le> xf[k]\<close> is at least one.\<close>

lemma bin_count_pos:
  assumes m: "mono rnd" and z: "rnd 0 = 0" and nd: "1 \<le> ndiv" and le: "xi ! k \<le> xf ! k"
  shows "1 \<le> bin_count rnd xi xf ndiv k"
proof -
  let ?l = "rnd (xf ! k - xi ! k)"
  let ?s = "rnd (?l / rnd (real_of_int ndiv))"
  have l: "0 \<le> ?l" using le by (intro rnd_nonneg [OF m z]) simp
  have "0 \<le> rnd (real_of_int ndiv)" using nd by (intro rnd_nonneg [OF m z]) simp
  with l have "0 \<le> ?s" by (intro rnd_nonneg [OF m z]) simp
  with l have "0 \<le> rnd (?l / ?s)" by (intro rnd_nonneg [OF m z]) simp
  then have "0 \<le> toInt (rnd (?l / ?s))" by (rule toInt_nonneg)
  then show ?thesis by (simp add: bin_count_def Let_def)
qed

lemma table_size_2: "length xi = 2 \<Longrightarrow>
    table_size rnd xi xf ndiv = bin_count rnd xi xf ndiv 0 * bin_count rnd xi xf ndiv 1"
  by (simp add: table_size_def upt_0_2)

lemma table_size_3: "length xi = 3 \<Longrightarrow>
    table_size rnd xi xf ndiv =
      bin_count rnd xi xf ndiv 0 * bin_count rnd xi xf ndiv 1 * bin_count rnd xi xf ndiv 2"
  by (simp add: table_size_def upt_0_3 mult.assoc)

text \<open>The counts and the table that \<open>Init\<close> leaves when the table size is in range.\<close>

lemma Init_counts:
  assumes m: "mono rnd" and z: "rnd 0 = 0" and nd: "1 \<le> ndiv"
    and le: "\<forall>k<length xi. xi ! k \<le> xf ! k"
    and h: "table_size rnd xi xf ndiv < 2 ^ 63"
    and i: "Init rnd b0 xi xf ndiv = Inr (None, b)"
  shows "\<forall>k<Ndim b. N b ! k = bin_count rnd xi xf ndiv k \<and> 1 \<le> N b ! k"
    and "int (length (All_bins b)) = prod_list (N b)"
    and "prod_list (N b) < 2 ^ 63"
proof -
  note I = Init_Inr [OF i]
  let ?c = "bin_count rnd xi xf ndiv"
  have c1: "1 \<le> ?c k" if "k < length xi" for k
    using le that by (intro bin_count_pos [OF m z nd]) simp
  from I(3) have "(\<forall>k<Ndim b. N b ! k = ?c k \<and> 1 \<le> N b ! k) \<and>
      int (length (All_bins b)) = prod_list (N b) \<and> prod_list (N b) < 2 ^ 63"
  proof
    assume d: "Ndim b = 2"
    then have len: "length xi = 2" using I(1) by simp
    have t: "?c 0 * ?c 1 < 2 ^ 63" using h by (simp add: table_size_2 [OF len])
    have p0: "1 \<le> ?c 0" and p1: "1 \<le> ?c 1" using c1 len by simp_all
    note w = fold_wrap_2 [OF p0 p1 t]
    have n: "N b = [?c 0, ?c 1]"
      using list_2 [of "N b"] I(7,8) d w(1,2) by (simp add: less_Suc_eq numeral_2_eq_2)
    have "\<forall>k<Ndim b. N b ! k = ?c k \<and> 1 \<le> N b ! k"
      using c1 [of 0] c1 [of 1] len by (simp add: d n less_Suc_eq numeral_2_eq_2)
    moreover have "int (length (All_bins b)) = prod_list (N b)"
      using I(10) w(3) c1 [of 0] c1 [of 1] len by (simp add: n)
    moreover have "prod_list (N b) < 2 ^ 63" using t by (simp add: n)
    ultimately show ?thesis by blast
  next
    assume d: "Ndim b = 3"
    then have len: "length xi = 3" using I(1) by simp
    have t: "?c 0 * ?c 1 * ?c 2 < 2 ^ 63" using h by (simp add: table_size_3 [OF len])
    have p0: "1 \<le> ?c 0" and p1: "1 \<le> ?c 1" and p2: "1 \<le> ?c 2" using c1 len by simp_all
    note w = fold_wrap_3 [OF p0 p1 p2 t]
    have n: "N b = [?c 0, ?c 1, ?c 2]"
      using list_3 [of "N b"] I(7,8) d w(1,2,3)
      by (simp add: less_Suc_eq numeral_3_eq_3 numeral_2_eq_2)
    have "\<forall>k<Ndim b. N b ! k = ?c k \<and> 1 \<le> N b ! k"
      using c1 [of 0] c1 [of 1] c1 [of 2] len
      by (simp add: d n less_Suc_eq numeral_3_eq_3 numeral_2_eq_2)
    moreover have "int (length (All_bins b)) = prod_list (N b)"
      using I(10) w(4) c1 [of 0] c1 [of 1] c1 [of 2] len by (simp add: n mult.assoc)
    moreover have "prod_list (N b) < 2 ^ 63" using t by (simp add: n mult.assoc)
    ultimately show ?thesis by blast
  qed
  then show "\<forall>k<Ndim b. N b ! k = bin_count rnd xi xf ndiv k \<and> 1 \<le> N b ! k"
    and "int (length (All_bins b)) = prod_list (N b)"
    and "prod_list (N b) < 2 ^ 63" by blast+
qed

text \<open>On such a grid, the cell number of a coordinate inside the box lies between 0 and
  \<open>N[k] - 1\<close>.\<close>

lemma cell_bounds:
  assumes m: "mono rnd" and z: "rnd 0 = 0" and nd: "1 \<le> ndiv"
    and le: "\<forall>k<length xi. xi ! k \<le> xf ! k"
    and h: "table_size rnd xi xf ndiv < 2 ^ 63"
    and i: "Init rnd b0 xi xf ndiv = Inr (None, b)"
    and k: "k < Ndim b" and lo: "Xi b ! k \<le> x ! k" and hi: "x ! k \<le> Xf b ! k"
  shows "0 \<le> cell rnd b x k" "cell rnd b x k \<le> N b ! k - 1"
proof -
  note I = Init_Inr [OF i]
  from I(8) k have Lk: "L b ! k = rnd (Xf b ! k - Xi b ! k)"
    and Sk: "S b ! k = rnd (L b ! k / rnd (real_of_int ndiv))"
    using I(4,5) by simp_all
  from Init_counts(1) [OF m z nd le h i] k
  have Nk: "N b ! k = toInt (rnd (L b ! k / S b ! k)) + 1"
    using Lk Sk I(4,5) by (simp add: bin_count_def Let_def)
  have num0: "0 \<le> rnd (x ! k - Xi b ! k)" using lo by (intro rnd_nonneg [OF m z]) simp
  have numL: "rnd (x ! k - Xi b ! k) \<le> L b ! k"
    unfolding Lk using hi by (intro monoD [OF m]) simp
  have L0: "0 \<le> L b ! k" using num0 numL by linarith
  have "0 \<le> rnd (real_of_int ndiv)" using nd by (intro rnd_nonneg [OF m z]) simp
  then have S0: "0 \<le> S b ! k" unfolding Sk using L0 by (intro rnd_nonneg [OF m z]) simp
  have "0 \<le> rnd (rnd (x ! k - Xi b ! k) / S b ! k)"
    using num0 S0 by (intro rnd_nonneg [OF m z]) simp
  then show "0 \<le> cell rnd b x k" unfolding cell_def by (rule toInt_nonneg)
  have "rnd (x ! k - Xi b ! k) / S b ! k \<le> L b ! k / S b ! k"
    using numL S0 by (rule divide_right_mono)
  then have "rnd (rnd (x ! k - Xi b ! k) / S b ! k) \<le> rnd (L b ! k / S b ! k)"
    by (rule monoD [OF m])
  then have "cell rnd b x k \<le> toInt (rnd (L b ! k / S b ! k))"
    unfolding cell_def by (rule toInt_mono)
  then show "cell rnd b x k \<le> N b ! k - 1" using Nk by simp
qed

text \<open>The flat index on a grid made by \<open>Init\<close>, also after later calls that have left the
  geometry and the length of \<open>tmp\<close> as they were.\<close>

lemma CalcIdx_bounds_later:
  assumes m: "mono rnd" and z: "rnd 0 = 0" and nd: "1 \<le> ndiv"
    and le: "\<forall>k<length xi. xi ! k \<le> xf ! k"
    and h: "table_size rnd xi xf ndiv < 2 ^ 63"
    and i: "Init rnd b0 xi xf ndiv = Inr (None, b)"
    and g: "same_geometry b b'" and t: "length (tmp b') = length (tmp b)"
    and x: "in_box b' x"
  shows "\<exists>idx b1. CalcIdx rnd b' x = Inr (idx, b1) \<and> 0 \<le> idx \<and> idx < prod_list (N b)"
proof -
  note I = Init_Inr [OF i]
  note cb = cell_bounds [OF m z nd le h i]
  note small = Init_counts(3) [OF m z nd le h i]
  from g have nd': "Ndim b' = Ndim b" and n': "N b' = N b" by (simp_all add: same_geometry_def)
  from g have c': "cell rnd b' x k = cell rnd b x k" for k
    by (simp add: cell_def same_geometry_def)
  from x g have xs: "\<forall>k<Ndim b. Xi b ! k \<le> x ! k \<and> x ! k \<le> Xf b ! k"
    by (simp add: in_box_iff same_geometry_def)
  from I(3) show ?thesis
  proof
    assume d: "Ndim b = 2"
    have k: "(0::nat) < Ndim b" "(1::nat) < Ndim b" using d by simp_all
    have p: "prod_list (N b) = N b ! 0 * N b ! 1" using I(7) d by (simp add: prod_list_2)
    have bs: "0 \<le> cell rnd b x 0" "cell rnd b x 0 \<le> N b ! 0 - 1"
      "0 \<le> cell rnd b x 1" "cell rnd b x 1 \<le> N b ! 1 - 1"
      using cb [of 0 x] cb [of 1 x] k xs by simp_all
    have w: "wrap64 (cell rnd b x 0 + wrap64 (cell rnd b x 1 * N b ! 0)) =
        cell rnd b x 0 + cell rnd b x 1 * N b ! 0"
      using small by (intro idx_wrap_2 [OF bs]) (simp add: p)
    from CalcIdx_in_box_2 [OF _ _ x, of rnd] I(6) d nd' t obtain b1 where
      "CalcIdx rnd b' x =
        Inr (wrap64 (cell rnd b' x 0 + wrap64 (cell rnd b' x 1 * N b' ! 0)), b1)"
      by auto
    then have c: "CalcIdx rnd b' x = Inr (cell rnd b x 0 + cell rnd b x 1 * N b ! 0, b1)"
      unfolding c' n' w .
    from idx_bound_2 [OF bs]
    have "0 \<le> cell rnd b x 0 + cell rnd b x 1 * N b ! 0"
      "cell rnd b x 0 + cell rnd b x 1 * N b ! 0 < N b ! 0 * N b ! 1" by simp_all
    then show ?thesis using c p by auto
  next
    assume d: "Ndim b = 3"
    have k: "(0::nat) < Ndim b" "(1::nat) < Ndim b" "(2::nat) < Ndim b" using d by simp_all
    have p: "prod_list (N b) = N b ! 0 * N b ! 1 * N b ! 2"
      using I(7) d by (simp add: prod_list_3)
    have bs: "0 \<le> cell rnd b x 0" "cell rnd b x 0 \<le> N b ! 0 - 1"
      "0 \<le> cell rnd b x 1" "cell rnd b x 1 \<le> N b ! 1 - 1"
      "0 \<le> cell rnd b x 2" "cell rnd b x 2 \<le> N b ! 2 - 1"
      using cb [of 0 x] cb [of 1 x] cb [of 2 x] k xs by simp_all
    have w: "wrap64 (wrap64 (cell rnd b x 0 + wrap64 (cell rnd b x 1 * N b ! 0)) +
          wrap64 (wrap64 (cell rnd b x 2 * N b ! 0) * N b ! 1)) =
        cell rnd b x 0 + cell rnd b x 1 * N b ! 0 + cell rnd b x 2 * N b ! 0 * N b ! 1"
      using small by (intro idx_wrap_3 [OF bs]) (simp add: p)
    from CalcIdx_in_box_3 [OF _ _ x, of rnd] I(6) d nd' t obtain b1 where
      "CalcIdx rnd b' x =
        Inr (wrap64 (wrap64 (cell rnd b' x 0 + wrap64 (cell rnd b' x 1 * N b' ! 0)) +
          wrap64 (wrap64 (cell rnd b' x 2 * N b' ! 0) * N b' ! 1)), b1)"
      by auto
    then have c: "CalcIdx rnd b' x =
        Inr (cell rnd b x 0 + cell rnd b x 1 * N b ! 0 + cell rnd b x 2 * N b ! 0 * N b ! 1, b1)"
      unfolding c' n' w .
    from idx_bound_3 [OF bs]
    have "0 \<le> cell rnd b x 0 + cell rnd b x 1 * N b ! 0 + cell rnd b x 2 * N b ! 0 * N b ! 1"
      "cell rnd b x 0 + cell rnd b x 1 * N b ! 0 + cell rnd b x 2 * N b ! 0 * N b ! 1
         < N b ! 0 * N b ! 1 * N b ! 2" by simp_all
    then show ?thesis using c p by auto
  qed
qed


text \<open>The bin sizes that \<open>Init\<close> computes for a box with \<open>xi[k] < xf[k]\<close> are positive when
  rounding keeps positive numbers positive: no division by zero occurs.\<close>

lemma Init_S_pos:
  assumes pos: "\<And>v. 0 < v \<Longrightarrow> 0 < rnd v" and nd: "1 \<le> ndiv"
    and i: "Init rnd b0 xi xf ndiv = Inr (None, b)"
    and lt: "\<forall>k<Ndim b. Xi b ! k < Xf b ! k"
  shows "\<forall>k<Ndim b. 0 < S b ! k"
proof (intro allI impI)
  fix k
  assume k: "k < Ndim b"
  note I = Init_Inr [OF i]
  from I(8) k have Lk: "L b ! k = rnd (Xf b ! k - Xi b ! k)"
    and Sk: "S b ! k = rnd (L b ! k / rnd (real_of_int ndiv))"
    using I(4,5) by simp_all
  have "0 < L b ! k" unfolding Lk using lt k by (intro pos) simp
  moreover have "0 < rnd (real_of_int ndiv)" using nd by (intro pos) simp
  ultimately show "0 < S b ! k" unfolding Sk by (intro pos) simp
qed

lemma mono_exact: "mono exact"
  by (simp add: mono_def exact_def)

lemma exact_0: "exact 0 = 0"
  by (simp add: exact_def)

lemma exact_pos: "0 < v \<Longrightarrow> 0 < exact v"
  by (simp add: exact_def)

lemma table_size_grid10_val: "table_size exact [0, 0] [10, 10] 5 = 36"
  by (simp add: table_size_def bin_count_def exact_def toInt_def upt_0_2 Let_def)

lemma table_size_grid10: "table_size exact [0, 0] [10, 10] 5 < 2 ^ 63"
  by (simp add: table_size_grid10_val)





subsection \<open>Points outside the box, and what the queries can return\<close>





lemma in_box_same_geometry: "same_geometry b b' \<Longrightarrow> in_box b' x = in_box b x"
  by (simp add: in_box_def same_geometry_def)




lemma FindBinByIndex_stored:
  assumes "FindBinByIndex b idx = (r, b')"
  shows "same_geometry b b'" "length (All_bins b') = length (All_bins b)"
    "\<forall>p<length (All_bins b). slot_entries (All_bins b' ! p) = slot_entries (All_bins b ! p)"
proof -
  show "same_geometry b b'" using assms
    by (auto simp: FindBinByIndex_def Let_def same_geometry_def split: if_splits option.splits)
  show "length (All_bins b') = length (All_bins b)" using assms
    by (auto simp: FindBinByIndex_def Let_def split: if_splits option.splits)
  show "\<forall>p<length (All_bins b). slot_entries (All_bins b' ! p) = slot_entries (All_bins b ! p)"
    using assms
    by (auto simp: FindBinByIndex_def Let_def nth_list_update split: if_splits option.splits)
qed



lemma Append_same_geometry:
  "Append rnd b x eid = Inr (err, b') \<Longrightarrow> same_geometry b b'"
  by (auto simp: Append_def Let_def same_geometry_def
      split: sum.splits prod.splits option.splits if_splits
      dest!: CalcIdx_same_geometry FindBinByIndex_stored(1))


















subsection \<open>The search along a segment\<close>

lemma Init_grid4: "Init exact Bins_zero [0, 0] [4, 4] 2 = Inr (None, grid4)"
  by (simp add: Init_def Bins_zero_def exact_def toInt_def Let_def grid4_def)

lemma Init_grid8: "Init exact Bins_zero [0, 0, 0] [4, 4, 4] 1 = Inr (None, grid8)"
  by (simp add: Init_def Bins_zero_def exact_def toInt_def Let_def grid8_def upt_0_3)


lemma Append_grid8: "Append exact grid8 [1, 1, 3] 7 = Inr (None, grid8_1)"
  by (simp add: Append_def CalcIdx_def FindBinByIndex_def grid8_def grid8_1_def exact_def
      toInt_def upt_0_3 DblCopy_def Let_def)

text \<open>Evaluation of the examples.\<close>

lemma replicate_8: "replicate 8 x = [x, x, x, x, x, x, x, x]"
  by (simp add: eval_nat_numeral)

lemma replicate_9: "replicate 9 x = [x, x, x, x, x, x, x, x, x]"
  by (simp add: eval_nat_numeral)






lemma entry_point_2: "entry_point 2 \<lparr>Id_e = i, X = [x, y]\<rparr> = \<lparr>X_p = x, Y_p = y, Z_p = 0\<rparr>"
  by (simp add: entry_point_def)







lemma grid8_1_fields:
  "Ndim grid8_1 = 3"
  "All_bins grid8_1 = [Some \<lparr>Idx = 0, Entries = [\<lparr>Id_e = 7, X = [1, 1, 3]\<rparr>]\<rparr>,
     None, None, None, None, None, None, None]"
  "bin_tol exact grid8_1 = 18 / 5"
  "bin_center exact grid8_1 0 = \<lparr>X_p = 2, Y_p = 2, Z_p = 2\<rparr>"
  by (simp_all add: grid8_1_def grid8_def replicate_8 bin_tol_def Max_utl_def exact_def
      bin_center_def Let_def)

lemma DistPointLine_on_diagonal:
  "DistPointLine \<lparr>X_p = x, Y_p = x, Z_p = x\<rparr> \<lparr>X_p = 0, Y_p = 0, Z_p = 0\<rparr>
     \<lparr>X_p = 2, Y_p = 2, Z_p = 2\<rparr> tol False = 0" if "0 \<le> x" "x \<le> 2"
proof -
  have "(x * 2 + x * 2 + x * 2) / 12 = x / 2" by simp
  with that show ?thesis by (simp add: DistPointLine_def Let_def min_def max_def)
qed

lemma entry_point_3: "entry_point 3 \<lparr>Id_e = i, X = [x, y, z]\<rparr> = \<lparr>X_p = x, Y_p = y, Z_p = x\<rparr>"
  by (simp add: entry_point_def)

lemma FindAlongSegment_grid8:
  "FindAlongSegment exact DistPointLine IsPointIn grid8_1 [0, 0, 0] [2, 2, 2] (1 / 4) = Inr [7]"
  by (simp add: FindAlongSegment_def Let_def grid8_1_fields seg_point_def seg_box_def
      DistPointLine_on_diagonal entry_point_3 IsPointIn_def)

lemma DistPointLine_own_coordinate:
  "DistPointLine \<lparr>X_p = 1, Y_p = 1, Z_p = 3\<rparr> \<lparr>X_p = 0, Y_p = 0, Z_p = 0\<rparr>
     \<lparr>X_p = 2, Y_p = 2, Z_p = 2\<rparr> (1 / 4) False = sqrt (8 / 3)"
  by (simp add: DistPointLine_def Let_def)

lemma sqrt_8_3: "1 / 4 < sqrt (8 / 3)"
  by (rule real_less_rsqrt) (simp add: power2_eq_square)

text \<open>
  C4 (the claim: an id is returned if and only if the entry's own coordinate is within the
  tolerance of the segment and inside its envelope, in 2-D and in 3-D). In 3-D the second
  loop reads \<open>z\<close> from \<open>entry.X[0]\<close>: in the grid of the box from (0,0,0) to (4,4,4) with
  one division, the entry at (1,1,3) is tested as the point (1,1,1) and returned for the
  segment from (0,0,0) to (2,2,2) with tolerance 1/4, although its own coordinate is outside
  the envelope and farther than 1/4 from the segment.
\<close>

theorem FindAlongSegment_3d_tests_x_for_z:
  "Append exact grid8 [1, 1, 3] 7 = Inr (None, grid8_1) \<and>
   FindAlongSegment exact DistPointLine IsPointIn grid8_1 [0, 0, 0] [2, 2, 2] (1 / 4) = Inr [7] \<and>
   \<not> IsPointIn \<lparr>X_p = 1, Y_p = 1, Z_p = 3\<rparr> [0, 0, 0] [2, 2, 2] (1 / 4) \<and>
   \<not> DistPointLine \<lparr>X_p = 1, Y_p = 1, Z_p = 3\<rparr> \<lparr>X_p = 0, Y_p = 0, Z_p = 0\<rparr>
       \<lparr>X_p = 2, Y_p = 2, Z_p = 2\<rparr> (1 / 4) False \<le> 1 / 4"
  using sqrt_8_3
  by (simp add: Append_grid8 FindAlongSegment_grid8 DistPointLine_own_coordinate) (simp add: IsPointIn_def)

subsection \<open>The scenario of the specification\<close>

text \<open>In exact arithmetic the loop of \<open>Find\<close> computes the squared Euclidean distance.\<close>

lemma sqdist_exact: "sqdist exact n x y = (\<Sum>k<n. (x ! k - y ! k)\<^sup>2)"
  by (induction n) (simp_all add: sqdist_def exact_def)

text \<open>The scenario of the specification: after the insertions of id 1 at (1,1) and id 2
  at (9,9), the query (1/2,1/2) finds id 1, and the segment from (0,0) to (10,10) with
  tolerance 3/2 finds both ids.\<close>

lemma Append_grid10_1: "Append exact grid10_1 [9, 9] 2 = Inr (None, grid10_2)"
  by (simp add: Append_def CalcIdx_def FindBinByIndex_def grid10_def grid10_1_def grid10_2_def
      exact_def toInt_def upt_0_2 DblCopy_def Let_def)

lemma Find_grid10_2: "Find exact grid10_2 [1 / 2, 1 / 2] = Inr (1, grid10_2\<lparr>tmp := [0, 0]\<rparr>)"
  by (simp add: Find_def CalcIdx_def FindBinByIndex_def grid10_def grid10_2_def
      exact_def toInt_def upt_0_2 Let_def sqdist_2 MaxFloat64_def power2_eq_square)

lemma replicate_36: "replicate 36 x = replicate 9 x @ replicate 9 x @ replicate 9 x @ replicate 9 x"
  by (simp add: replicate_add [symmetric])

lemma grid10_2_fields:
  "Ndim grid10_2 = 2"
  "All_bins grid10_2 = [Some \<lparr>Idx = 0, Entries = [\<lparr>Id_e = 1, X = [1, 1]\<rparr>]\<rparr>,
     None, None, None, None, None, None, None, None,
     None, None, None, None, None, None, None, None, None,
     None, None, None, None, None, None, None, None, None,
     None, Some \<lparr>Idx = 28, Entries = [\<lparr>Id_e = 2, X = [9, 9]\<rparr>]\<rparr>,
     None, None, None, None, None, None, None]"
  "bin_tol exact grid10_2 = 9 / 5"
  "bin_center exact grid10_2 0 = \<lparr>X_p = 1, Y_p = 1, Z_p = 0\<rparr>"
  "bin_center exact grid10_2 28 = \<lparr>X_p = 9, Y_p = 9, Z_p = 0\<rparr>"
  by (simp_all add: grid10_2_def grid10_def replicate_36 replicate_9 bin_tol_def Max_utl_def exact_def
      bin_center_def Let_def signed_divide_int_def signed_modulo_int_def)

lemma DistPointLine_on_diagonal_2d:
  "DistPointLine \<lparr>X_p = x, Y_p = x, Z_p = 0\<rparr> \<lparr>X_p = 0, Y_p = 0, Z_p = 0\<rparr>
     \<lparr>X_p = 10, Y_p = 10, Z_p = 0\<rparr> tol False = 0" if "0 \<le> x" "x \<le> 10"
proof -
  have "(x * 10 + x * 10) / 200 = x / 10" by simp
  with that show ?thesis by (simp add: DistPointLine_def Let_def min_def max_def)
qed

lemma FindAlongSegment_grid10_2:
  "FindAlongSegment exact DistPointLine IsPointIn grid10_2 [0, 0] [10, 10] (3 / 2) = Inr [1, 2]"
  by (simp add: FindAlongSegment_def Let_def grid10_2_fields seg_point_def seg_box_def
      DistPointLine_on_diagonal_2d entry_point_2 IsPointIn_def)

subsection \<open>Insertion into a grid in use\<close>

lemma same_geometry_trans: "same_geometry a b \<Longrightarrow> same_geometry b c \<Longrightarrow> same_geometry a c"
  by (simp add: same_geometry_def)

lemma FindBinByIndex_tmp: "FindBinByIndex b idx = (r, b') \<Longrightarrow> tmp b' = tmp b"
  by (auto simp: FindBinByIndex_def Let_def split: if_splits option.splits)

lemma Append_lengths:
  assumes "Append rnd b x eid = Inr (err, b')"
  shows "length (All_bins b') = length (All_bins b)" "length (tmp b') = length (tmp b)"
proof -
  from assms obtain idx b1 where c: "CalcIdx rnd b x = Inr (idx, b1)"
    by (auto simp: Append_def split: sum.splits prod.splits)
  note f = CalcIdx_frame [OF c] CalcIdx_All_bins [OF c]
  show "length (All_bins b') = length (All_bins b)" using assms c f
    by (auto simp: Append_def Let_def split: if_splits prod.splits option.splits
        dest!: FindBinByIndex_stored(2))
  show "length (tmp b') = length (tmp b)" using assms c f
    by (auto simp: Append_def Let_def split: if_splits prod.splits option.splits
        dest!: FindBinByIndex_tmp)
qed

lemma Find_tmp_length:
  assumes "Find rnd b x = Inr (r, b')"
  shows "length (tmp b') = length (tmp b)"
proof -
  from assms obtain idx b1 where c: "CalcIdx rnd b x = Inr (idx, b1)"
    by (auto simp: Find_def split: sum.splits prod.splits)
  note f = CalcIdx_frame [OF c]
  show ?thesis using assms c f
    by (auto simp: Find_def split: if_splits prod.splits option.splits dest!: FindBinByIndex_tmp)
qed

text \<open>While a grid is in use, its geometry and the lengths of its table and of \<open>tmp\<close> stay
  as they were.\<close>

lemma in_use_frame:
  "in_use rnd b0 b \<Longrightarrow>
     same_geometry b0 b \<and> length (All_bins b) = length (All_bins b0) \<and>
     length (tmp b) = length (tmp b0)"
proof (induction rule: in_use.induct)
  case u_fresh
  show ?case by (simp add: same_geometry_def)
next
  case (u_Append b x eid err b')
  with Append_same_geometry [OF u_Append.hyps(2)] Append_lengths [OF u_Append.hyps(2)]
  show ?case by (auto intro: same_geometry_trans)
next
  case (u_Find b x r b')
  with Find_effect [OF u_Find.hyps(2)] Find_tmp_length [OF u_Find.hyps(2)]
  show ?case by (auto intro: same_geometry_trans)
next
  case (u_CalcIdx b x idx b')
  with CalcIdx_same_geometry [OF u_CalcIdx.hyps(2)] CalcIdx_frame [OF u_CalcIdx.hyps(2)]
    CalcIdx_All_bins [OF u_CalcIdx.hyps(2)]
  show ?case by (auto intro: same_geometry_trans)
next
  case (u_FindBinByIndex b idx p b')
  with FindBinByIndex_stored(1,2) [OF u_FindBinByIndex.hyps(2)]
    FindBinByIndex_tmp [OF u_FindBinByIndex.hyps(2)]
  show ?case by (auto intro: same_geometry_trans)
qed

text \<open>
  C9, amended: on a grid that \<open>Init\<close> has made for a box with \<open>xi[k] < xf[k]\<close> in every
  dimension, at least one division and a product of the bin counts below 2^63, and that
  has been in use since without a call of \<open>Clear\<close>,
  the bin sizes are positive, and for every point inside the bounding box \<open>CalcIdx\<close>
  returns an index that is not negative and is less than the length of the table, and
  \<open>Append\<close> returns no error: neither the out-of-range error nor the "bin index is out of
  range" error. This holds for every rounding function that is monotone, exact on zero
  and keeps positive numbers positive.
\<close>

theorem CalcIdx_in_table:
  assumes m: "mono rnd" and z: "rnd 0 = 0" and pos: "\<And>v. 0 < v \<Longrightarrow> 0 < rnd v"
    and nd: "1 \<le> ndiv"
    and i: "Init rnd b0 xi xf ndiv = Inr (None, b)"
    and lt: "\<forall>k<length xi. xi ! k < xf ! k"
    and h: "table_size rnd xi xf ndiv < 2 ^ 63"
    and u: "in_use rnd b b'"
    and x: "in_box b' x"
  shows "(\<forall>k<Ndim b'. 0 < S b' ! k) \<and>
         (\<exists>idx b1. CalcIdx rnd b' x = Inr (idx, b1) \<and> 0 \<le> idx \<and>
            idx < int (length (All_bins b')) \<and>
            (\<exists>b''. Append rnd b' x eid = Inr (None, b'')))"
proof -
  note I = Init_Inr [OF i]
  from lt have le: "\<forall>k<length xi. xi ! k \<le> xf ! k" by (simp add: less_imp_le)
  from in_use_frame [OF u] have g: "same_geometry b b'"
    and la: "length (All_bins b') = length (All_bins b)"
    and lt': "length (tmp b') = length (tmp b)" by simp_all
  from CalcIdx_bounds_later [OF m z nd le h i g lt' x] obtain idx b1 where
    c: "CalcIdx rnd b' x = Inr (idx, b1)" and lo: "0 \<le> idx"
    and hi: "idx < int (length (All_bins b'))"
    using Init_counts(2) [OF m z nd le h i] la by auto
  have "All_bins b1 = All_bins b'" by (rule CalcIdx_All_bins [OF c])
  with lo hi have "\<exists>p bin b2. FindBinByIndex b1 idx = (Some (p, bin), b2)"
    by (auto simp: FindBinByIndex_def Let_def split: option.splits)
  with c lo have a: "\<exists>b''. Append rnd b' x eid = Inr (None, b'')"
    by (auto simp: Append_def Let_def)
  have "\<forall>k<Ndim b. Xi b ! k < Xf b ! k" using I(1,4,5) lt by simp
  from Init_S_pos [OF pos nd i this] g have "\<forall>k<Ndim b'. 0 < S b' ! k"
    by (simp add: same_geometry_def)
  with c lo hi a show ?thesis by blast
qed

lemma in_box_grid10_1: "in_box grid10_1 [9, 9]"
  by (simp add: in_box_def grid10_1_def grid10_def upt_0_2)

lemma CalcIdx_grid10_1_far: "CalcIdx exact grid10_1 [9, 9] = Inr (28, grid10_1\<lparr>tmp := [4, 4]\<rparr>)"
  by (simp add: CalcIdx_def grid10_1_def grid10_def exact_def toInt_def upt_0_2)

text \<open>The second insertion of the scenario: the point (9,9) on the example grid that holds
  id 1, in exact arithmetic.\<close>

theorem CalcIdx_in_table_witness:
  "mono exact \<and> exact 0 = 0 \<and> (1::int) \<le> 5 \<and>
   table_size exact [0, 0] [10, 10] 5 < 2 ^ 63 \<and>
   Init exact Bins_zero [0, 0] [10, 10] 5 = Inr (None, grid10) \<and>
   in_use exact grid10 grid10_1 \<and> in_box grid10_1 [9, 9] \<and>
   CalcIdx exact grid10_1 [9, 9] = Inr (28, grid10_1\<lparr>tmp := [4, 4]\<rparr>) \<and>
   (28::int) < int (length (All_bins grid10_1)) \<and>
   Append exact grid10_1 [9, 9] 2 = Inr (None, grid10_2)"
proof -
  have nd: "(1::int) \<le> 5" by simp
  have lt: "\<forall>k<length [0, 0 :: real]. [0, 0 :: real] ! k < [10, 10] ! k"
    by (simp add: less_Suc_eq)
  have u: "in_use exact grid10 grid10_1" by (rule u_Append [OF u_fresh Append_grid10])
  from CalcIdx_in_table [OF mono_exact exact_0 exact_pos nd Init_grid10 lt table_size_grid10 u
      in_box_grid10_1, of 2]
  have "28 < int (length (All_bins grid10_1))" by (auto simp: CalcIdx_grid10_1_far)
  then show ?thesis
    by (simp add: mono_exact exact_0 Init_grid10 u in_box_grid10_1 CalcIdx_grid10_1_far
        Append_grid10_1 table_size_grid10_val)
qed

subsection \<open>After Clear, on every valid grid\<close>

text \<open>\<open>Clear\<close> keeps the geometry, and it leaves a grid on which, for every point inside the
  box, \<open>Append\<close> returns the "bin index is out of range" error and \<open>Find\<close> panics.\<close>

lemma Clear_same_geometry: "same_geometry b (Clear b)"
  by (simp add: same_geometry_def Clear_def)

lemma after_Clear:
  assumes m: "mono rnd" and z: "rnd 0 = 0" and nd: "1 \<le> ndiv"
    and le: "\<forall>k<length xi. xi ! k \<le> xf ! k"
    and h: "table_size rnd xi xf ndiv < 2 ^ 63"
    and i: "Init rnd b0 xi xf ndiv = Inr (None, b)"
    and u: "in_use rnd b b'"
    and x: "in_box b' x"
  shows "\<exists>b1. Append rnd (Clear b') x eid = Inr (Some IndexOutOfBounds, b1)"
    and "Find rnd (Clear b') x = Inl PanicNil"
proof -
  from in_use_frame [OF u] have g: "same_geometry b b'"
    and t: "length (tmp b') = length (tmp b)" by simp_all
  have g': "same_geometry b (Clear b')"
    by (rule same_geometry_trans [OF g Clear_same_geometry])
  have t': "length (tmp (Clear b')) = length (tmp b)" using t by (simp add: Clear_def)
  have x': "in_box (Clear b') x"
    using x by (simp add: in_box_same_geometry [OF Clear_same_geometry])
  from CalcIdx_bounds_later [OF m z nd le h i g' t' x'] obtain idx b1 where
    c: "CalcIdx rnd (Clear b') x = Inr (idx, b1)" and lo: "0 \<le> idx" by blast
  have "All_bins b1 = []" using CalcIdx_All_bins [OF c] by (simp add: Clear_def)
  with lo have f: "FindBinByIndex b1 idx = (None, b1)" by (simp add: FindBinByIndex_def)
  from c lo f show "\<exists>b1. Append rnd (Clear b') x eid = Inr (Some IndexOutOfBounds, b1)"
    by (simp add: Append_def)
  from c lo f show "Find rnd (Clear b') x = Inl PanicNil"
    by (simp add: Find_def)
qed

subsection \<open>A table size beyond the range of int\<close>

lemma Init_grid_wrap:
  "Init exact Bins_zero [0, 0, 0] [4194303, 4194303, 4194303] 4194303 = Inr (None, grid_wrap)"
  by (simp add: Init_def Bins_zero_def exact_def toInt_def Let_def grid_wrap_def upt_0_3
      wrap64_def)


lemma table_size_grid_wrap:
  "table_size exact [0, 0, 0] [4194303, 4194303, 4194303] 4194303 = 2 ^ 66"
  by (simp add: table_size_def bin_count_def exact_def toInt_def upt_0_3 Let_def)

lemma Append_grid_wrap:
  "Append exact grid_wrap [0, 0, 0] 1 = Inr (Some IndexOutOfBounds, grid_wrap)"
  by (simp add: Append_def CalcIdx_def FindBinByIndex_def grid_wrap_def exact_def toInt_def
      upt_0_3)


subsection \<open>A division count below one\<close>

lemma ceiling_minus_1: "\<lceil>- 1 :: real\<rceil> = - 1"
  using ceiling_of_int [of "- 1", where ?'a = real] by simp

text \<open>
  C9 (the claim: on every grid that \<open>Init\<close> has made without an error, the "bin index is
  out of range" branch of \<open>Append\<close> is unreachable for points inside the box). \<open>Init\<close> does
  not check the division count: with -1 divisions it returns no error and allocates an
  empty table, and \<open>Append\<close> of the lower corner (0,0) returns that error. So does
  \<open>Append\<close> of the lower corner on the 3-D grid with 4194303 divisions, whose table size
  2^66 has wrapped to 0.
\<close>

theorem Append_index_error_negative_ndiv:
  "Init exact Bins_zero [0, 0] [10, 10] (- 1) = Inr (None, grid_neg) \<and>
   in_box grid_neg [0, 0] \<and>
   Append exact grid_neg [0, 0] 1 = Inr (Some IndexOutOfBounds, grid_neg) \<and>
   Init exact Bins_zero [0, 0, 0] [4194303, 4194303, 4194303] 4194303 = Inr (None, grid_wrap) \<and>
   in_box grid_wrap [0, 0, 0] \<and>
   Append exact grid_wrap [0, 0, 0] 1 = Inr (Some IndexOutOfBounds, grid_wrap)"
proof (intro conjI)
  show "Init exact Bins_zero [0, 0] [10, 10] (- 1) = Inr (None, grid_neg)"
    by (simp add: Init_def Bins_zero_def exact_def toInt_def Let_def grid_neg_def ceiling_minus_1)
  show "in_box grid_neg [0, 0]"
    by (simp add: in_box_def grid_neg_def upt_0_2)
  show "Append exact grid_neg [0, 0] 1 = Inr (Some IndexOutOfBounds, grid_neg)"
    by (simp add: Append_def CalcIdx_def FindBinByIndex_def grid_neg_def exact_def toInt_def
        upt_0_2)
  show "Init exact Bins_zero [0, 0, 0] [4194303, 4194303, 4194303] 4194303 = Inr (None, grid_wrap)"
    by (rule Init_grid_wrap)
  show "in_box grid_wrap [0, 0, 0]"
    by (simp add: in_box_def grid_wrap_def upt_0_3)
  show "Append exact grid_wrap [0, 0, 0] 1 = Inr (Some IndexOutOfBounds, grid_wrap)"
    by (rule Append_grid_wrap)
qed

end
